theory Spec2Isabelle
  imports Complex_Main
begin

section \<open>Python run-time errors and arithmetic\<close>

text \<open>
  The three stages are Python scripts. Every exception they can raise before the solver is
  started is a value of \<open>error\<close>; a stage's \<open>main\<close> returns \<open>Inl e\<close> when it raises
  \<open>e\<close> and \<open>Inr m\<close> when it reaches \<open>solver.Solve(m, ...)\<close> with the model \<open>m\<close>.
\<close>

datatype error = ZeroDivisionError | OverflowError | IndexError | KeyError | ValueError

text \<open>
  \<open>math.floor(a / b)\<close> and \<open>math.ceil(a / b)\<close> on Python ints. \<open>a / b\<close> is the true
  division of two ints. A zero divisor raises ZeroDivisionError. Otherwise the quotient is
  rounded to the nearest binary64 float, and the division raises OverflowError ("integer
  division result too large for a float") when the rounded quotient would reach \<open>2^1024\<close>:
  that is from \<open>2^1024 - 2^970\<close> on, half a unit in the last place below \<open>2^1024\<close>, in
  absolute value.

  The value returned is the floor, or the ceiling, of the exact quotient. It is the integer
  Python computes as long as \<open>a\<close> is below \<open>2^53\<close> in absolute value; for larger operands
  the rounding of the float is not followed. GroupPairer only prints these values.
\<close>

definition float_limit :: int where
  "float_limit = 2 ^ 1024 - 2 ^ 970"

definition too_large_for_float :: "int \<Rightarrow> int \<Rightarrow> bool" where
  "too_large_for_float a b = (float_limit * \<bar>b\<bar> \<le> \<bar>a\<bar>)"

definition floor_quot :: "int \<Rightarrow> int \<Rightarrow> error + int" where
  "floor_quot a b =
     (if b = 0 then Inl ZeroDivisionError
      else if too_large_for_float a b then Inl OverflowError
      else Inr (a div b))"

definition ceil_quot :: "int \<Rightarrow> int \<Rightarrow> error + int" where
  "ceil_quot a b =
     (if b = 0 then Inl ZeroDivisionError
      else if too_large_for_float a b then Inl OverflowError
      else Inr (- ((- a) div b)))"

section \<open>The constraint models handed to the solving engine\<close>

text \<open>
  A model is the list of constraints added with \<open>model.Add\<close> / \<open>model.AddExactlyOne\<close>,
  and the objective of \<open>model.Minimize\<close> when there is one. All variables are Boolean
  (\<open>NewBoolVar\<close>). \<open>Linear xs op ys k enf\<close> is
  \<open>model.Add(sum(xs) op sum(ys) + k)\<close>, with \<open>.OnlyEnforceIf(enf)\<close> when \<open>enf\<close> is given.
\<close>

datatype 'v literal = Lit 'v | NotLit 'v

datatype relop = EQ | NE | GE | LE | GT | LT

datatype 'v constraint =
    Linear "'v list" relop "'v list" int "'v literal option"
  | ExactlyOne "'v list"

record 'v cp_model =
  constraints :: "'v constraint list"
  objective :: "'v list option"

text \<open>\<open>Value a v\<close> is \<open>self.Value(v)\<close> in the assignment \<open>a\<close>: 1 for true, 0 for false.\<close>

definition Value :: "('v \<Rightarrow> bool) \<Rightarrow> 'v \<Rightarrow> int" where
  "Value a v = (if a v then 1 else 0)"

definition total :: "('v \<Rightarrow> bool) \<Rightarrow> 'v list \<Rightarrow> int" where
  "total a xs = sum_list (map (Value a) xs)"

fun compare :: "relop \<Rightarrow> int \<Rightarrow> int \<Rightarrow> bool" where
  "compare EQ x y = (x = y)"
| "compare NE x y = (x \<noteq> y)"
| "compare GE x y = (x \<ge> y)"
| "compare LE x y = (x \<le> y)"
| "compare GT x y = (x > y)"
| "compare LT x y = (x < y)"

fun enforced :: "('v \<Rightarrow> bool) \<Rightarrow> 'v literal option \<Rightarrow> bool" where
  "enforced a None = True"
| "enforced a (Some (Lit b)) = a b"
| "enforced a (Some (NotLit b)) = (\<not> a b)"

fun holds :: "('v \<Rightarrow> bool) \<Rightarrow> 'v constraint \<Rightarrow> bool" where
  "holds a (Linear xs op ys k enf) = (\<not> enforced a enf \<or> compare op (total a xs) (total a ys + k))"
| "holds a (ExactlyOne xs) = (total a xs = 1)"

text \<open>A solution of a model is an assignment of all its variables that satisfies every constraint.\<close>

definition solution :: "('v \<Rightarrow> bool) \<Rightarrow> 'v cp_model \<Rightarrow> bool" where
  "solution a m = list_all (holds a) (constraints m)"

section \<open>BenchPlanner: benchAlloc.py\<close>

text \<open>
  The variables of the bench model: \<open>Bench p r\<close> is \<open>bench[(p, r)]\<close>; the others are the
  indicator variables \<open>b_var\<close> created for constraint 2 (\<open>B_bench p t\<close>),
  constraint 3 (\<open>B_dist p t1 t2\<close>, one per iteration, \<open>t2\<close> before the reduction modulo
  \<open>num_rounds\<close>) and the objective (\<open>B_pair p1 p2 t1 t2\<close>).
\<close>

datatype bvar =
    Bench nat nat
  | B_bench nat nat
  | B_dist nat nat nat
  | B_pair nat nat nat nat

definition num_players_per_court :: int where
  "num_players_per_court = 4"

definition num_bench :: "int \<Rightarrow> int \<Rightarrow> int" where
  "num_bench num_players num_courts = num_players - (num_courts * num_players_per_court)"

definition min_bench :: "int \<Rightarrow> int \<Rightarrow> int \<Rightarrow> error + int" where
  "min_bench num_players num_rounds nb = floor_quot (num_rounds * nb) num_players"

definition max_bench :: "int \<Rightarrow> int \<Rightarrow> int \<Rightarrow> error + int" where
  "max_bench num_players num_rounds nb = ceil_quot (num_rounds * nb) num_players"

definition distance_on_bench :: "int \<Rightarrow> int \<Rightarrow> error + int" where
  "distance_on_bench num_players nb =
     (case ceil_quot num_players nb of Inl e \<Rightarrow> Inl e | Inr c \<Rightarrow> Inr (c - 2))"

text \<open>Constraint 1: the bench roster of every round has \<open>num_bench\<close> players.\<close>

definition bench_constraint1 :: "nat \<Rightarrow> nat \<Rightarrow> int \<Rightarrow> bvar constraint list" where
  "bench_constraint1 np nr nb =
     map (\<lambda>round. Linear (map (\<lambda>player. Bench player round) [0..<np]) EQ [] nb None) [0..<nr]"

text \<open>Constraint 2: every player sits on the bench between min and max number of times.\<close>

definition bench_constraint2 :: "nat \<Rightarrow> nat \<Rightarrow> int \<Rightarrow> int \<Rightarrow> bvar constraint list" where
  "bench_constraint2 np nr minb maxb =
     concat (map (\<lambda>p1.
       concat (map (\<lambda>t1.
         [Linear [Bench p1 t1] EQ [] 1 (Some (Lit (B_bench p1 t1))),
          Linear [Bench p1 t1] NE [] 1 (Some (NotLit (B_bench p1 t1)))]) [0..<nr])
       @ [Linear (map (B_bench p1) [0..<nr]) GE [] minb None,
          Linear (map (B_bench p1) [0..<nr]) LE [] maxb None]) [0..<np])"

text \<open>
  Constraint 3: for every player and round \<open>t1\<close>, and every \<open>t2\<close> in
  \<open>range(t1+1, t1+1+distance_on_bench)\<close>, an indicator of "benched in \<open>t1\<close> and in
  \<open>t2 mod num_rounds\<close>"; the indicators of a player sum to 0.
\<close>

definition bench_constraint3 :: "nat \<Rightarrow> nat \<Rightarrow> int \<Rightarrow> bvar constraint list" where
  "bench_constraint3 np nr d =
     concat (map (\<lambda>p1.
       concat (map (\<lambda>t1.
         concat (map (\<lambda>t2.
           [Linear [Bench p1 t1, Bench p1 (t2 mod nr)] EQ [] 2 (Some (Lit (B_dist p1 t1 t2))),
            Linear [Bench p1 t1, Bench p1 (t2 mod nr)] NE [] 2 (Some (NotLit (B_dist p1 t1 t2)))])
           [t1 + 1..<t1 + 1 + nat d])) [0..<nr])
       @ [Linear (concat (map (\<lambda>t1. map (B_dist p1 t1) [t1 + 1..<t1 + 1 + nat d]) [0..<nr]))
            EQ [] 0 None]) [0..<np])"

text \<open>
  Objective 1: an indicator for every pair of players and pair of rounds, true iff both
  players are benched in both rounds; the indicators are the objective to minimise.
\<close>

definition bench_objective_vars :: "nat \<Rightarrow> nat \<Rightarrow> bvar list" where
  "bench_objective_vars np nr =
     concat (map (\<lambda>p1. concat (map (\<lambda>p2. concat (map (\<lambda>t1.
       map (\<lambda>t2. B_pair p1 p2 t1 t2) [t1 + 1..<nr]) [0..<nr])) [p1 + 1..<np])) [0..<np])"

definition bench_objective_constraints :: "nat \<Rightarrow> nat \<Rightarrow> bvar constraint list" where
  "bench_objective_constraints np nr =
     concat (map (\<lambda>p1. concat (map (\<lambda>p2. concat (map (\<lambda>t1. concat (map (\<lambda>t2.
       [Linear [Bench p1 t1, Bench p2 t1, Bench p1 t2, Bench p2 t2] EQ [] 4
          (Some (Lit (B_pair p1 p2 t1 t2))),
        Linear [Bench p1 t1, Bench p2 t1, Bench p1 t2, Bench p2 t2] NE [] 4
          (Some (NotLit (B_pair p1 p2 t1 t2)))])
       [t1 + 1..<nr])) [0..<nr])) [p1 + 1..<np])) [0..<np])"

definition bench_model :: "nat \<Rightarrow> nat \<Rightarrow> int \<Rightarrow> int \<Rightarrow> int \<Rightarrow> int \<Rightarrow> bvar cp_model" where
  "bench_model np nr nb minb maxb d =
     \<lparr>constraints = bench_constraint1 np nr nb @ bench_constraint2 np nr minb maxb
                     @ bench_constraint3 np nr d @ bench_objective_constraints np nr,
      objective = Some (bench_objective_vars np nr)\<rparr>"

text \<open>
  \<open>main\<close> of benchAlloc.py, up to the call of the solver. After the banner the script has
  \<^verbatim>\<open>if num_bench==0: print("no player on bench...exiting"); exit\<close>
  where \<^verbatim>\<open>exit\<close> is the bare name, not a call: it evaluates to the built-in and execution
  goes on with the three quotients, so that branch changes nothing in the result.
\<close>

definition benchAlloc_main :: "int \<Rightarrow> int \<Rightarrow> int \<Rightarrow> error + bvar cp_model" where
  "benchAlloc_main num_players num_rounds num_courts =
     (let nb = num_bench num_players num_courts in
      case min_bench num_players num_rounds nb of Inl e \<Rightarrow> Inl e | Inr minb \<Rightarrow>
     (case max_bench num_players num_rounds nb of Inl e \<Rightarrow> Inl e | Inr maxb \<Rightarrow>
     (case distance_on_bench num_players nb of Inl e \<Rightarrow> Inl e | Inr d \<Rightarrow>
        Inr (bench_model (nat num_players) (nat num_rounds) nb minb maxb d))))"

text \<open>
  \<open>write_bench\<close> of the callback: the benched players of every round, round by round,
  as 1-based ids. \<open>val p r\<close> is the truth of \<open>self.Value(self._bench[(p, r)])\<close>.
\<close>

definition write_bench :: "(nat \<Rightarrow> nat \<Rightarrow> bool) \<Rightarrow> nat \<Rightarrow> nat \<Rightarrow> int list" where
  "write_bench val np nr =
     concat (map (\<lambda>round. map (\<lambda>player. int player + 1)
       (filter (\<lambda>player. val player round) [0..<np])) [0..<nr])"

text \<open>
  The claim of C5 speaks of a player benched in every one of the rounds
  \<open>r, r+1, \<dots>, r+d-1\<close> taken modulo \<open>num_rounds\<close>.
\<close>

definition benched_whole_window :: "(bvar \<Rightarrow> bool) \<Rightarrow> nat \<Rightarrow> nat \<Rightarrow> nat \<Rightarrow> nat \<Rightarrow> bool" where
  "benched_whole_window a p r d nr = list_all (\<lambda>k. a (Bench p ((r + k) mod nr))) [0..<d]"

text \<open>
  Example rosters. A bench matrix \<open>f\<close> fixes all variables of the bench model: every
  indicator takes the value its two reifying constraints force.
\<close>

fun bench_assignment :: "(nat \<Rightarrow> nat \<Rightarrow> bool) \<Rightarrow> nat \<Rightarrow> bvar \<Rightarrow> bool" where
  "bench_assignment f nr (Bench p r) = f p r"
| "bench_assignment f nr (B_bench p t) = f p t"
| "bench_assignment f nr (B_dist p t1 t2) = (f p t1 \<and> f p (t2 mod nr))"
| "bench_assignment f nr (B_pair p1 p2 t1 t2) = (f p1 t1 \<and> f p2 t1 \<and> f p1 t2 \<and> f p2 t2)"

text \<open>Five players, five rounds, one court: player \<open>r\<close> sits out round \<open>r\<close>.\<close>

definition rota5 :: "nat \<Rightarrow> nat \<Rightarrow> bool" where
  "rota5 p r = (p = r)"

text \<open>Six players, three rounds, one court: players \<open>2r\<close> and \<open>2r+1\<close> sit out round \<open>r\<close>.\<close>

definition rota6 :: "nat \<Rightarrow> nat \<Rightarrow> bool" where
  "rota6 p r = (p div 2 = r)"

section \<open>GroupPairer: teamAlloc.py\<close>

text \<open>
  The variables of the grouping model: \<open>Games p r c\<close> is \<open>games[(p, r, c)]\<close>, with the
  bench as the last "court" \<open>c = num_courts\<close>; \<open>BenchVar p r\<close> is \<open>benchVar[(p, r)]\<close>;
  \<open>Duo p r s\<close> is \<open>duoVar[(p, r, s)]\<close>; \<open>B_share\<close> and \<open>B_partner\<close> are the indicators
  \<open>b_var\<close> of constraints 5 and 7.
\<close>

datatype tvar =
    Games nat nat nat
  | BenchVar nat nat
  | B_share nat nat nat nat
  | Duo nat nat nat
  | B_partner nat nat nat nat

definition all_played_courts :: "int \<Rightarrow> nat list" where
  "all_played_courts num_courts = [0..<nat num_courts]"

definition all_courts :: "int \<Rightarrow> nat list" where
  "all_courts num_courts = [0..<nat (num_courts + 1)]"

text \<open>\<^verbatim>\<open>all_bench = range(num_courts+1, num_courts+1)\<close>: as written, an empty range.\<close>

definition all_bench :: "int \<Rightarrow> nat list" where
  "all_bench num_courts = [nat (num_courts + 1)..<nat (num_courts + 1)]"

text \<open>Constraint 1: every played court has \<open>num_players_per_court\<close> players in every round.\<close>

definition team_constraint1 :: "nat \<Rightarrow> nat \<Rightarrow> int \<Rightarrow> tvar constraint list" where
  "team_constraint1 np nr num_courts =
     concat (map (\<lambda>round. map (\<lambda>court.
       Linear (map (\<lambda>player. Games player round court) [0..<np]) EQ [] num_players_per_court None)
       (all_played_courts num_courts)) [0..<nr])"

text \<open>Constraint 2: the roster of every court in \<open>all_bench\<close> has \<open>num_bench\<close> players.\<close>

definition team_constraint2 :: "nat \<Rightarrow> nat \<Rightarrow> int \<Rightarrow> int \<Rightarrow> tvar constraint list" where
  "team_constraint2 np nr num_courts nb =
     concat (map (\<lambda>round. map (\<lambda>court.
       Linear (map (\<lambda>player. Games player round court) [0..<np]) EQ [] nb None)
       (all_bench num_courts)) [0..<nr])"

text \<open>Constraint 3: every player is in exactly one court or on the bench in every round.\<close>

definition team_constraint3 :: "nat \<Rightarrow> nat \<Rightarrow> int \<Rightarrow> tvar constraint list" where
  "team_constraint3 np nr num_courts =
     concat (map (\<lambda>player. map (\<lambda>round.
       ExactlyOne (map (\<lambda>court. Games player round court) (all_courts num_courts)))
       [0..<nr]) [0..<np])"

text \<open>
  Constraint 4 reads the bench file. The state of its loop: the read position \<open>count\<close>,
  the matrix \<open>bench_assignements[player][round]\<close>, the rows \<open>bench_matrix\<close> with the row
  \<open>bench\<close> being filled, and the constraints added so far.
\<close>

record pin_state =
  count :: nat
  bench_assignements :: "int list list"
  bench :: "int list"
  bench_matrix :: "int list list"
  pinned :: "tvar constraint list"

fun repeat :: "nat \<Rightarrow> ('s \<Rightarrow> error + 's) \<Rightarrow> 's \<Rightarrow> error + 's" where
  "repeat 0 f s = Inr s"
| "repeat (Suc n) f s = (case f s of Inl e \<Rightarrow> Inl e | Inr s' \<Rightarrow> repeat n f s')"

fun for_each :: "'i list \<Rightarrow> ('i \<Rightarrow> 's \<Rightarrow> error + 's) \<Rightarrow> 's \<Rightarrow> error + 's" where
  "for_each [] f s = Inr s"
| "for_each (x # xs) f s = (case f x s of Inl e \<Rightarrow> Inl e | Inr s' \<Rightarrow> for_each xs f s')"

text \<open>
  The body of the inner loop, for one entry of the file:
  \<^verbatim>\<open>bench.append(bench_list[count])\<close> raises IndexError past the end of the list;
  \<^verbatim>\<open>bench_assignements[bench_list[count]-1][round]=1\<close> raises IndexError when the index
  is outside \<open>[-num_players, num_players)\<close> (a negative index counts from the end);
  \<^verbatim>\<open>games[(bench_list[count]-1, round, benchcourt)]\<close> raises KeyError when the key is
  not one of the dictionary, that is for a negative player index or a negative
  \<open>benchcourt\<close>.
\<close>

definition pin_player :: "nat \<Rightarrow> int \<Rightarrow> int list \<Rightarrow> nat \<Rightarrow> pin_state \<Rightarrow> error + pin_state" where
  "pin_player np num_courts bench_list rnd s =
     (if length bench_list \<le> count s then Inl IndexError
      else let player = bench_list ! count s - 1 in
        if player < - int np \<or> int np \<le> player then Inl IndexError
        else if player < 0 \<or> num_courts < 0 then Inl KeyError
        else Inr (s\<lparr>bench := bench s @ [bench_list ! count s],
                    bench_assignements := (bench_assignements s)
                      [nat player := (bench_assignements s ! nat player)[rnd := 1]],
                    pinned := pinned s @
                      [Linear [Games (nat player) rnd (nat num_courts)] EQ [] 1 None],
                    count := count s + 1\<rparr>))"

text \<open>
  One round of the outer loop: a fresh row \<open>bench\<close>, \<open>num_bench\<close> entries of the file,
  and the row is appended to \<open>bench_matrix\<close>.
\<close>

definition read_round :: "nat \<Rightarrow> int \<Rightarrow> int \<Rightarrow> int list \<Rightarrow> nat \<Rightarrow> pin_state \<Rightarrow> error + pin_state" where
  "read_round np num_courts nb bench_list rnd s =
     (case repeat (nat nb) (pin_player np num_courts bench_list rnd) (s\<lparr>bench := []\<rparr>) of
        Inl e \<Rightarrow> Inl e
      | Inr s' \<Rightarrow> Inr (s'\<lparr>bench_matrix := bench_matrix s' @ [bench s']\<rparr>))"

definition read_bench :: "nat \<Rightarrow> nat \<Rightarrow> int \<Rightarrow> int \<Rightarrow> int list \<Rightarrow> error + pin_state" where
  "read_bench np nr num_courts nb bench_list =
     for_each [0..<nr] (read_round np num_courts nb bench_list)
       \<lparr>count = 0, bench_assignements = replicate np (replicate nr 0), bench = [],
        bench_matrix = [], pinned = []\<rparr>"

definition team_benchVar_constraints :: "nat \<Rightarrow> nat \<Rightarrow> int \<Rightarrow> tvar constraint list" where
  "team_benchVar_constraints np nr num_courts =
     concat (map (\<lambda>player. map (\<lambda>round.
       Linear [BenchVar player round] EQ [Games player round (nat num_courts)] 0 None)
       [0..<nr]) [0..<np])"

text \<open>
  The bench file is taken as a JSON array of integers. With \<open>num_bench > 0\<close> the three
  quotients are computed first (they raise for \<open>num_players = 0\<close>), then the file is read.
  The lookups \<open>games[(player, round, benchcourt)]\<close> of the \<open>benchVar\<close> loop cannot fail:
  with a negative \<open>num_courts\<close> and a round to visit, the read loop has raised before.
\<close>

definition team_constraint4 ::
  "nat \<Rightarrow> nat \<Rightarrow> int \<Rightarrow> int \<Rightarrow> int list \<Rightarrow> error + tvar constraint list" where
  "team_constraint4 np nr num_courts nb bench_list =
     (if nb > 0 then
        case read_bench np nr num_courts nb bench_list of
          Inl e \<Rightarrow> Inl e
        | Inr s \<Rightarrow> Inr (pinned s @ team_benchVar_constraints np nr num_courts)
      else Inr [])"

text \<open>Constraint 5: every pair of players shares a played court at least once.\<close>

definition team_constraint5 :: "nat \<Rightarrow> nat \<Rightarrow> int \<Rightarrow> tvar constraint list" where
  "team_constraint5 np nr num_courts =
     concat (map (\<lambda>p1. concat (map (\<lambda>p2.
       concat (map (\<lambda>round. concat (map (\<lambda>court.
         [Linear [Games p1 round court, Games p2 round court] EQ [] 2
            (Some (Lit (B_share p1 p2 round court))),
          Linear [Games p1 round court, Games p2 round court] NE [] 2
            (Some (NotLit (B_share p1 p2 round court)))])
         (all_played_courts num_courts))) [0..<nr])
       @ [Linear (concat (map (\<lambda>round. map (\<lambda>court. B_share p1 p2 round court)
            (all_played_courts num_courts)) [0..<nr])) GT [] 0 None])
       [p1 + 1..<np])) [0..<np])"

text \<open>The two duos of a court make up the court.\<close>

definition team_duo_constraints :: "nat \<Rightarrow> nat \<Rightarrow> int \<Rightarrow> tvar constraint list" where
  "team_duo_constraints np nr num_courts =
     concat (map (\<lambda>player. concat (map (\<lambda>round. map (\<lambda>court.
       Linear [Duo player round (court * 2), Duo player round (court * 2 + 1)] EQ
         [Games player round court] 0 None)
       (all_played_courts num_courts)) [0..<nr])) [0..<np])"

text \<open>Constraint 6: every duo has exactly 2 players.\<close>

definition team_constraint6 :: "nat \<Rightarrow> nat \<Rightarrow> int \<Rightarrow> tvar constraint list" where
  "team_constraint6 np nr num_courts =
     concat (map (\<lambda>round. concat (map (\<lambda>court.
       [Linear (map (\<lambda>player. Duo player round (court * 2)) [0..<np]) EQ [] 2 None,
        Linear (map (\<lambda>player. Duo player round (court * 2 + 1)) [0..<np]) EQ [] 2 None])
       (all_played_courts num_courts))) [0..<nr])"

text \<open>Constraint 7: every pair of partners is unique.\<close>

definition team_constraint7 :: "nat \<Rightarrow> nat \<Rightarrow> int \<Rightarrow> tvar constraint list" where
  "team_constraint7 np nr num_courts =
     concat (map (\<lambda>p1. concat (map (\<lambda>p2.
       concat (map (\<lambda>round. concat (map (\<lambda>court.
         [Linear [Duo p1 round (court * 2), Duo p2 round (court * 2)] EQ [] 2
            (Some (Lit (B_partner p1 p2 round (court * 2)))),
          Linear [Duo p1 round (court * 2), Duo p2 round (court * 2)] NE [] 2
            (Some (NotLit (B_partner p1 p2 round (court * 2)))),
          Linear [Duo p1 round (court * 2 + 1), Duo p2 round (court * 2 + 1)] EQ [] 2
            (Some (Lit (B_partner p1 p2 round (court * 2 + 1)))),
          Linear [Duo p1 round (court * 2 + 1), Duo p2 round (court * 2 + 1)] NE [] 2
            (Some (NotLit (B_partner p1 p2 round (court * 2 + 1))))])
         (all_played_courts num_courts))) [0..<nr])
       @ [Linear (concat (map (\<lambda>round. concat (map (\<lambda>court.
            [B_partner p1 p2 round (court * 2), B_partner p1 p2 round (court * 2 + 1)])
            (all_played_courts num_courts))) [0..<nr])) LT [] 2 None])
       [p1 + 1..<np])) [0..<np])"

text \<open>
  \<open>main\<close> of teamAlloc.py, up to the call of the solver, on the content \<open>bench_list\<close> of the
  bench file.
\<close>

definition teamAlloc_main :: "int \<Rightarrow> int \<Rightarrow> int \<Rightarrow> int list \<Rightarrow> error + tvar cp_model" where
  "teamAlloc_main num_players num_rounds num_courts bench_list =
     (let nb = num_bench num_players num_courts;
          np = nat num_players; nr = nat num_rounds in
      case (if nb > 0 then
              (case min_bench num_players num_rounds nb of Inl e \<Rightarrow> Inl e | Inr minb \<Rightarrow>
              (case max_bench num_players num_rounds nb of Inl e \<Rightarrow> Inl e | Inr maxb \<Rightarrow>
              (case distance_on_bench num_players nb of Inl e \<Rightarrow> Inl e | Inr d \<Rightarrow> Inr ())))
            else Inr ()) of
        Inl e \<Rightarrow> Inl e
      | Inr _ \<Rightarrow>
         (case team_constraint4 np nr num_courts nb bench_list of
            Inl e \<Rightarrow> Inl e
          | Inr c4 \<Rightarrow>
              Inr \<lparr>constraints =
                     team_constraint1 np nr num_courts @ team_constraint2 np nr num_courts nb
                     @ team_constraint3 np nr num_courts @ c4
                     @ team_constraint5 np nr num_courts @ team_duo_constraints np nr num_courts
                     @ team_constraint6 np nr num_courts @ team_constraint7 np nr num_courts,
                   objective = None\<rparr>))"

text \<open>
  An example schedule. The court and duo matrices fix all variables of the grouping
  model, every indicator taking the value its reifying constraints force.
\<close>

fun team_assignment ::
  "(nat \<Rightarrow> nat \<Rightarrow> nat \<Rightarrow> bool) \<Rightarrow> (nat \<Rightarrow> nat \<Rightarrow> nat \<Rightarrow> bool) \<Rightarrow> nat \<Rightarrow> tvar \<Rightarrow> bool" where
  "team_assignment g d nc (Games p r c) = g p r c"
| "team_assignment g d nc (BenchVar p r) = g p r nc"
| "team_assignment g d nc (B_share p1 p2 r c) = (g p1 r c \<and> g p2 r c)"
| "team_assignment g d nc (Duo p r s) = d p r s"
| "team_assignment g d nc (B_partner p1 p2 r s) = (d p1 r s \<and> d p2 r s)"

text \<open>
  Five players, five rounds, one court, on the bench file of \<open>rota5\<close>: in round \<open>r\<close>
  player \<open>r\<close> sits out, \<open>r+1\<close> plays with \<open>r+4\<close> and \<open>r+2\<close> with \<open>r+3\<close> (modulo 5).
\<close>

definition games5 :: "nat \<Rightarrow> nat \<Rightarrow> nat \<Rightarrow> bool" where
  "games5 p r c = (if c = 0 then p \<noteq> r else p = r)"

definition duo5 :: "nat \<Rightarrow> nat \<Rightarrow> nat \<Rightarrow> bool" where
  "duo5 p r s = (if s = 0 then p = (r + 1) mod 5 \<or> p = (r + 4) mod 5
                 else p = (r + 2) mod 5 \<or> p = (r + 3) mod 5)"

definition team5 :: "tvar \<Rightarrow> bool" where
  "team5 = team_assignment games5 duo5 1"

text \<open>
  Players \<open>p1\<close> and \<open>p2\<close> are opponents in round \<open>r\<close>: they are in the two duos of
  one court.
\<close>

definition opposed :: "(tvar \<Rightarrow> bool) \<Rightarrow> nat \<Rightarrow> nat \<Rightarrow> nat \<Rightarrow> nat \<Rightarrow> bool" where
  "opposed a p1 p2 r nc =
     list_ex (\<lambda>court. (a (Duo p1 r (court * 2)) \<and> a (Duo p2 r (court * 2 + 1)))
                     \<or> (a (Duo p1 r (court * 2 + 1)) \<and> a (Duo p2 r (court * 2)))) [0..<nc]"

subsection \<open>The incumbent callback of GroupPairer\<close>

text \<open>
  \<open>max(...)\<close> and \<open>min(...)\<close> of a Python sequence raise ValueError when it is empty.
\<close>

fun py_max :: "int list \<Rightarrow> error + int" where
  "py_max [] = Inl ValueError"
| "py_max (x # xs) = Inr (fold max xs x)"

fun py_min :: "int list \<Rightarrow> error + int" where
  "py_min [] = Inl ValueError"
| "py_min (x # xs) = Inr (fold min xs x)"

text \<open>
  The private state of \<open>TeamAllocationSolutionPrinter\<close>: \<open>_solution_count\<close>, \<open>_best\<close>
  and \<open>_better\<close>, as \<open>__init__\<close> sets them. \<open>num_players*(num_players+1)/2\<close> is a whole
  number.
\<close>

record team_printer =
  solution_count :: int
  best :: int
  better :: int

definition team_printer_init :: "int \<Rightarrow> int \<Rightarrow> team_printer" where
  "team_printer_init num_players num_rounds =
     \<lparr>solution_count = 0, best = num_rounds,
      better = num_players * (num_players + 1) div 2\<rparr>"

text \<open>\<open>paircounts[p1][p2]\<close>: how often the two players are on the same played court.\<close>

definition paircount :: "nat \<Rightarrow> nat \<Rightarrow> (tvar \<Rightarrow> bool) \<Rightarrow> nat \<Rightarrow> nat \<Rightarrow> int" where
  "paircount nr nc v p1 p2 =
     sum_list (concat (map (\<lambda>round. map (\<lambda>court.
       if Value v (Games p1 round court) + Value v (Games p2 round court) = 2 then 1 else 0)
       [0..<nc]) [0..<nr]))"

definition paircounts :: "nat \<Rightarrow> nat \<Rightarrow> nat \<Rightarrow> (tvar \<Rightarrow> bool) \<Rightarrow> int list" where
  "paircounts np nr nc v =
     concat (map (\<lambda>p1. map (\<lambda>p2. paircount nr nc v p1 p2) [p1 + 1..<np]) [0..<np])"

definition maxCount :: "nat \<Rightarrow> nat \<Rightarrow> nat \<Rightarrow> (tvar \<Rightarrow> bool) \<Rightarrow> error + int" where
  "maxCount np nr nc v = py_max (paircounts np nr nc v)"

definition minCount :: "nat \<Rightarrow> nat \<Rightarrow> nat \<Rightarrow> (tvar \<Rightarrow> bool) \<Rightarrow> error + int" where
  "minCount np nr nc v = py_min (paircounts np nr nc v)"

text \<open>
  \<open>sameplayers\<close>: the pairs of players, rounds \<open>r1\<close> and courts \<open>c1\<close>, \<open>c2\<close> with both
  players on \<open>c1\<close> in round \<open>r1\<close> and on \<open>c2\<close> in the next round (cyclically).
\<close>

definition sameplayers :: "nat \<Rightarrow> nat \<Rightarrow> nat \<Rightarrow> (tvar \<Rightarrow> bool) \<Rightarrow> int" where
  "sameplayers np nr nc v =
     sum_list (concat (map (\<lambda>p1. concat (map (\<lambda>p2. concat (map (\<lambda>r1.
       concat (map (\<lambda>c1. map (\<lambda>c2.
         if Value v (Games p1 r1 c1) + Value v (Games p2 r1 c1)
            + Value v (Games p1 ((r1 + 1) mod nr) c2) + Value v (Games p2 ((r1 + 1) mod nr) c2) = 4
         then 1 else 0)
         [0..<nc]) [0..<nc])) [0..<nr])) [p1 + 1..<np])) [0..<np]))"

text \<open>
  \<open>print_schedule\<close> of the callback, up to the decision \<open>printit\<close>: the new state and
  whether the solution is printed and written to the groups file.
\<close>

definition team_print_schedule ::
  "nat \<Rightarrow> nat \<Rightarrow> nat \<Rightarrow> (tvar \<Rightarrow> bool) \<Rightarrow> team_printer \<Rightarrow> error + team_printer \<times> bool" where
  "team_print_schedule np nr nc v s =
     (case maxCount np nr nc v of Inl e \<Rightarrow> Inl e | Inr maxc \<Rightarrow>
     (case minCount np nr nc v of Inl e \<Rightarrow> Inl e | Inr minc \<Rightarrow>
        if maxc - minc \<le> best s then
          (let same = sameplayers np nr nc v;
               s1 = s\<lparr>best := maxc - minc\<rparr>;
               printit = (if maxc - minc < best s1 then True else False)
           in if same \<le> better s1 then Inr (s1\<lparr>better := same\<rparr>, True)
              else Inr (s1, printit))
        else Inr (s, False)))"

text \<open>
  \<open>on_solution_callback\<close>: count the solution, run \<open>print_schedule\<close>, and ask the engine
  to stop at the limit. The result carries \<open>printit\<close> and the stop request.
\<close>

definition team_on_solution_callback ::
  "nat \<Rightarrow> nat \<Rightarrow> nat \<Rightarrow> int \<Rightarrow> (tvar \<Rightarrow> bool) \<Rightarrow> team_printer
     \<Rightarrow> error + team_printer \<times> bool \<times> bool" where
  "team_on_solution_callback np nr nc limit v s =
     (let s0 = s\<lparr>solution_count := solution_count s + 1\<rparr> in
      case team_print_schedule np nr nc v s0 of
        Inl e \<Rightarrow> Inl e
      | Inr (s1, printit) \<Rightarrow> Inr (s1, printit, solution_count s1 \<ge> limit))"

text \<open>
  The engine calls the callback serially for the solutions it finds, in the order found,
  until the callback asks it to stop.
\<close>

fun team_search ::
  "nat \<Rightarrow> nat \<Rightarrow> nat \<Rightarrow> int \<Rightarrow> (tvar \<Rightarrow> bool) list \<Rightarrow> team_printer
     \<Rightarrow> error + team_printer \<times> bool list" where
  "team_search np nr nc limit [] s = Inr (s, [])"
| "team_search np nr nc limit (v # vs) s =
     (case team_on_solution_callback np nr nc limit v s of
        Inl e \<Rightarrow> Inl e
      | Inr (s1, printit, stop) \<Rightarrow>
          if stop then Inr (s1, [printit])
          else (case team_search np nr nc limit vs s1 of
                  Inl e \<Rightarrow> Inl e
                | Inr (s2, out) \<Rightarrow> Inr (s2, printit # out)))"

text \<open>
  The end of \<open>main\<close>: the solver is started on the model with the callback and a limit
  of 50000 solutions. \<^verbatim>\<open>solver.Solve(model, solution_printer)\<close> is a statement of its
  own: the status it returns is dropped. Then the statistics are printed, among them the
  number of solutions the callback has counted. \<open>sols\<close> stands for the solutions the
  engine finds, in the order found. A run that raises nothing ends with a report: for
  every callback whether it emitted, and the "solutions found" of the statistics.
\<close>

record team_report =
  emitted :: "bool list"
  solutions_found :: int

definition team_solution_limit :: int where
  "team_solution_limit = 50000"

definition teamAlloc_run ::
  "int \<Rightarrow> int \<Rightarrow> int \<Rightarrow> int list \<Rightarrow> (tvar \<Rightarrow> bool) list \<Rightarrow> error + team_report" where
  "teamAlloc_run num_players num_rounds num_courts bench_list sols =
     (case teamAlloc_main num_players num_rounds num_courts bench_list of
        Inl e \<Rightarrow> Inl e
      | Inr m \<Rightarrow>
         (case team_search (nat num_players) (nat num_rounds) (nat num_courts)
                 team_solution_limit sols (team_printer_init num_players num_rounds) of
            Inl e \<Rightarrow> Inl e
          | Inr (s, out) \<Rightarrow> Inr \<lparr>emitted = out, solutions_found = solution_count s\<rparr>))"

text \<open>The engine is sound: what it hands to the callback are solutions of the model.\<close>

definition engine_delivers :: "'v cp_model \<Rightarrow> ('v \<Rightarrow> bool) list \<Rightarrow> bool" where
  "engine_delivers m sols = list_all (\<lambda>v. solution v m) sols"

text \<open>
  Four players, two rounds, one court: everybody plays both rounds; partners 1-2 and 3-4,
  then 1-3 and 2-4.
\<close>

definition games4 :: "nat \<Rightarrow> nat \<Rightarrow> nat \<Rightarrow> bool" where
  "games4 p r c = (c = 0)"

definition duo4 :: "nat \<Rightarrow> nat \<Rightarrow> nat \<Rightarrow> bool" where
  "duo4 p r s = (if r = 0 then p div 2 = s else p mod 2 = s)"

definition team4 :: "tvar \<Rightarrow> bool" where
  "team4 = team_assignment games4 duo4 1"

section \<open>CourtAssigner: the incumbent callback of courtAlloc.py\<close>

text \<open>
  The callback reads \<open>games[(round, court, group)]\<close> of the solution and the matrix
  \<open>group_assignements[round][group][player]\<close> that \<open>main\<close> built from the groups file.
  Its private state: \<open>_solution_count\<close>, \<open>_bestCourtDiffMax\<close>, \<open>_numPlayersWith_best\<close>.
\<close>

record court_printer =
  court_solution_count :: int
  bestCourtDiffMax :: int
  numPlayersWith_best :: int

definition court_printer_init :: "int \<Rightarrow> int \<Rightarrow> court_printer" where
  "court_printer_init num_players num_rounds =
     \<lparr>court_solution_count = 0, bestCourtDiffMax = num_rounds,
      numPlayersWith_best = num_players\<rparr>"

text \<open>\<open>playersCourtCount[court][player]\<close>: how often the player's group is on the court.\<close>

definition playersCourtCount ::
  "nat \<Rightarrow> nat \<Rightarrow> int list list list \<Rightarrow> (nat \<Rightarrow> nat \<Rightarrow> nat \<Rightarrow> bool) \<Rightarrow> nat \<Rightarrow> nat \<Rightarrow> int" where
  "playersCourtCount nr nc group_assignements games court player =
     sum_list (concat (map (\<lambda>group. map (\<lambda>round.
       if games round court group then
         (if group_assignements ! round ! group ! player \<noteq> 0 then 1 else 0)
       else 0) [0..<nr]) [0..<nc]))"

fun collect :: "(error + 'a) list \<Rightarrow> error + 'a list" where
  "collect [] = Inr []"
| "collect (x # xs) =
     (case x of Inl e \<Rightarrow> Inl e
      | Inr y \<Rightarrow> (case collect xs of Inl e \<Rightarrow> Inl e | Inr ys \<Rightarrow> Inr (y # ys)))"

text \<open>\<open>playersCourtDiffMax\<close>: for every player, the most used court minus the least used.\<close>

definition playersCourtDiffMax ::
  "nat \<Rightarrow> nat \<Rightarrow> nat \<Rightarrow> int list list list \<Rightarrow> (nat \<Rightarrow> nat \<Rightarrow> nat \<Rightarrow> bool) \<Rightarrow> error + int list" where
  "playersCourtDiffMax np nr nc group_assignements games =
     collect (map (\<lambda>player.
       case py_max (map (\<lambda>court. playersCourtCount nr nc group_assignements games court player)
              [0..<nc]) of
         Inl e \<Rightarrow> Inl e
       | Inr maxc \<Rightarrow>
          (case py_min (map (\<lambda>court. playersCourtCount nr nc group_assignements games court player)
                  [0..<nc]) of
             Inl e \<Rightarrow> Inl e
           | Inr minc \<Rightarrow> Inr (maxc - minc))) [0..<np])"

text \<open>
  \<open>print_schedule\<close> of the callback, up to the decision \<open>printit\<close>. The two \<open>if\<close>s run
  one after the other, the first with \<open>>=\<close> on the number of players at the maximum.
\<close>

definition court_print_schedule ::
  "nat \<Rightarrow> nat \<Rightarrow> nat \<Rightarrow> int list list list \<Rightarrow> (nat \<Rightarrow> nat \<Rightarrow> nat \<Rightarrow> bool) \<Rightarrow> court_printer
     \<Rightarrow> error + court_printer \<times> bool" where
  "court_print_schedule np nr nc group_assignements games s =
     (case playersCourtDiffMax np nr nc group_assignements games of
        Inl e \<Rightarrow> Inl e
      | Inr spreads \<Rightarrow>
         (case py_max spreads of
            Inl e \<Rightarrow> Inl e
          | Inr mx \<Rightarrow>
             (let cnt = int (length (filter (\<lambda>d. d = mx) spreads));
                  (s1, printit1) =
                    (if bestCourtDiffMax s = mx then
                       (if numPlayersWith_best s \<ge> cnt
                        then (s\<lparr>numPlayersWith_best := cnt\<rparr>, True) else (s, False))
                     else (s, False));
                  (s2, printit2) =
                    (if bestCourtDiffMax s1 > mx
                     then (s1\<lparr>bestCourtDiffMax := mx, numPlayersWith_best := cnt\<rparr>, True)
                     else (s1, printit1))
              in Inr (s2, printit2))))"

text \<open>
  Eight players, one round, two courts: group 0 is players 1 to 4, group 1 players 5 to 8.
  The two assignments of groups to courts.
\<close>

definition groups8 :: "int list list list" where
  "groups8 = [[[1, 1, 1, 1, 0, 0, 0, 0], [0, 0, 0, 0, 1, 1, 1, 1]]]"

definition courts_straight :: "nat \<Rightarrow> nat \<Rightarrow> nat \<Rightarrow> bool" where
  "courts_straight r court grp = (court = grp)"

definition courts_swapped :: "nat \<Rightarrow> nat \<Rightarrow> nat \<Rightarrow> bool" where
  "courts_swapped r court grp = (court \<noteq> grp)"

section \<open>Properties of BenchPlanner\<close>

text \<open>
  C1 (the code departs from the claim). The claim: with \<open>num_bench = 0\<close>, as in the default
  configuration of 12 players, 6 rounds and 3 courts, the stage is skipped without any
  error. The script does not stop there: it goes on to \<open>math.ceil(num_players/num_bench)\<close>
  and raises ZeroDivisionError.
\<close>

theorem benchAlloc_default_raises:
  "num_bench 12 3 = 0 \<and> benchAlloc_main 12 6 3 = Inl ZeroDivisionError"
  by (simp add: benchAlloc_main_def num_bench_def num_players_per_court_def min_bench_def
      max_bench_def distance_on_bench_def floor_quot_def ceil_quot_def
      too_large_for_float_def float_limit_def)

text \<open>The same happens for every configuration without bench.\<close>

lemma float_limit_pos: "0 < float_limit"
  by (simp add: float_limit_def)

lemma zero_not_too_large: "b \<noteq> 0 \<Longrightarrow> \<not> too_large_for_float 0 b"
  using float_limit_pos by (simp add: too_large_for_float_def mult_le_0_iff)

lemma benchAlloc_main_no_bench:
  assumes "num_bench num_players num_courts = 0"
  shows "benchAlloc_main num_players num_rounds num_courts = Inl ZeroDivisionError"
  using assms
  by (simp add: benchAlloc_main_def min_bench_def max_bench_def distance_on_bench_def
      floor_quot_def ceil_quot_def zero_not_too_large)

subsection \<open>What a solution of the bench model satisfies\<close>

lemma total_length_filter: "total a xs = int (length (filter a xs))"
  by (induction xs) (simp_all add: total_def Value_def)

lemma total_upt_card: "total a (map f [0..<n]) = int (card {i. i < n \<and> a (f i)})"
proof -
  have "{i. i < n \<and> a (map f [0..<n] ! i)} = {i. i < n \<and> a (f i)}" by auto
  then show ?thesis by (simp add: total_length_filter length_filter_conv_card)
qed

lemma total_zero_iff: "total a xs = 0 \<longleftrightarrow> (\<forall>x\<in>set xs. \<not> a x)"
  by (simp add: total_length_filter filter_empty_conv)

lemma holds_constraint1:
  "list_all (holds a) (bench_constraint1 np nr nb) \<longleftrightarrow>
     (\<forall>r<nr. total a (map (\<lambda>p. Bench p r) [0..<np]) = nb)"
  by (auto simp: bench_constraint1_def list_all_iff total_def)

lemma holds_constraint2:
  assumes "list_all (holds a) (bench_constraint2 np nr minb maxb)" and "p < np"
  shows "(\<forall>t<nr. a (B_bench p t) = a (Bench p t))"
    and "minb \<le> total a (map (B_bench p) [0..<nr])"
    and "total a (map (B_bench p) [0..<nr]) \<le> maxb"
proof -
  from assms have *: "\<forall>c \<in> set (concat (map (\<lambda>t1.
         [Linear [Bench p t1] EQ [] 1 (Some (Lit (B_bench p t1))),
          Linear [Bench p t1] NE [] 1 (Some (NotLit (B_bench p t1)))]) [0..<nr])
       @ [Linear (map (B_bench p) [0..<nr]) GE [] minb None,
          Linear (map (B_bench p) [0..<nr]) LE [] maxb None]). holds a c"
    by (simp add: bench_constraint2_def list_all_iff)
  from * show "\<forall>t<nr. a (B_bench p t) = a (Bench p t)"
    by (auto simp: total_def Value_def split: if_splits)
  from * show "minb \<le> total a (map (B_bench p) [0..<nr])"
    by (simp add: total_def)
  from * show "total a (map (B_bench p) [0..<nr]) \<le> maxb"
    by (simp add: total_def)
qed

lemma list_all_concat_map:
  "list_all P (concat (map f xs)) = (\<forall>x\<in>set xs. list_all P (f x))"
  by (induction xs) auto

lemma benchAlloc_main_Inr:
  assumes "benchAlloc_main num_players num_rounds num_courts = Inr m"
  obtains minb maxb d where
    "min_bench num_players num_rounds (num_bench num_players num_courts) = Inr minb"
    "max_bench num_players num_rounds (num_bench num_players num_courts) = Inr maxb"
    "distance_on_bench num_players (num_bench num_players num_courts) = Inr d"
    "m = bench_model (nat num_players) (nat num_rounds) (num_bench num_players num_courts) minb maxb d"
  using assms by (auto simp: benchAlloc_main_def Let_def split: sum.splits)

lemma solution_bench_model:
  "solution a (bench_model np nr nb minb maxb d) \<longleftrightarrow>
     list_all (holds a) (bench_constraint1 np nr nb) \<and>
     list_all (holds a) (bench_constraint2 np nr minb maxb) \<and>
     list_all (holds a) (bench_constraint3 np nr d) \<and>
     list_all (holds a) (bench_objective_constraints np nr)"
  by (simp add: solution_def bench_model_def)

lemma floor_quot_real: "floor_quot a b = Inr q \<Longrightarrow> q = \<lfloor>real_of_int a / real_of_int b\<rfloor>"
  by (auto simp: floor_quot_def floor_divide_of_int_eq split: if_splits)

lemma ceil_quot_real: "ceil_quot a b = Inr q \<Longrightarrow> q = \<lceil>real_of_int a / real_of_int b\<rceil>"
proof -
  have "\<lfloor>real_of_int (- a) / real_of_int b\<rfloor> = (- a) div b"
    by (rule floor_divide_of_int_eq)
  then show "ceil_quot a b = Inr q \<Longrightarrow> q = \<lceil>real_of_int a / real_of_int b\<rceil>"
    by (auto simp: ceil_quot_def ceiling_def split: if_splits)
qed

lemma in_concat_map: "x \<in> set xs \<Longrightarrow> y \<in> set (f x) \<Longrightarrow> y \<in> set (concat (map f xs))"
  by auto

lemma bench_constraint3_unfold:
  assumes "list_all (holds a) (bench_constraint3 np nr d)"
  shows "\<forall>p1\<in>set [0..<np].
      (\<forall>t1\<in>set [0..<nr]. \<forall>t2\<in>set [t1 + 1..<t1 + 1 + nat d].
         holds a (Linear [Bench p1 t1, Bench p1 (t2 mod nr)] EQ [] 2 (Some (Lit (B_dist p1 t1 t2)))) \<and>
         holds a (Linear [Bench p1 t1, Bench p1 (t2 mod nr)] NE [] 2 (Some (NotLit (B_dist p1 t1 t2)))))
      \<and> holds a (Linear (concat (map (\<lambda>t1. map (B_dist p1 t1) [t1 + 1..<t1 + 1 + nat d]) [0..<nr])) EQ [] 0 None)"
  using assms
  by (simp only: bench_constraint3_def list_all_concat_map list_all_append list.pred_inject simp_thms)

lemma holds_constraint3:
  assumes "list_all (holds a) (bench_constraint3 np nr d)" and "p < np" and "t1 < nr"
    and "t1 < t2" and "t2 \<le> t1 + nat d"
  shows "\<not> (a (Bench p t1) \<and> a (Bench p (t2 mod nr)))"
proof -
  let ?bs = "concat (map (\<lambda>t1. map (B_dist p t1) [t1 + 1..<t1 + 1 + nat d]) [0..<nr])"
  have m0: "p \<in> set [0..<np]" using assms(2) by simp
  have m1: "t1 \<in> set [0..<nr]" using assms(3) by simp
  have m2: "t2 \<in> set [t1 + 1..<t1 + 1 + nat d]"
    using assms(4,5) by (simp only: set_upt atLeastLessThan_iff) arith
  note Ap = bspec[OF bench_constraint3_unfold[OF assms(1)] m0]
  from Ap have "holds a (Linear ?bs EQ [] 0 None)" by (rule conjunct2)
  then have z: "total a ?bs = 0" by (simp add: total_def)
  from m2 have "B_dist p t1 t2 \<in> set (map (B_dist p t1) [t1 + 1..<t1 + 1 + nat d])"
    unfolding set_map by (rule imageI)
  with m1 have "B_dist p t1 t2 \<in> set ?bs"
    by (rule in_concat_map)
  with z have nb: "\<not> a (B_dist p t1 t2)" unfolding total_zero_iff by (rule bspec)
  note bspec[OF bspec[OF conjunct1[OF Ap] m1] m2]
  then have "holds a (Linear [Bench p t1, Bench p (t2 mod nr)] NE [] 2 (Some (NotLit (B_dist p t1 t2))))"
    by (rule conjunct2)
  with nb show ?thesis by (simp add: total_def Value_def split: if_splits)
qed

lemma benchAlloc_main_5_5_1: "benchAlloc_main 5 5 1 = Inr (bench_model 5 5 1 1 1 3)"
  by (simp add: benchAlloc_main_def num_bench_def num_players_per_court_def min_bench_def
      max_bench_def distance_on_bench_def floor_quot_def ceil_quot_def
      too_large_for_float_def float_limit_def)

lemma rota5_solution: "solution (bench_assignment rota5 5) (bench_model 5 5 1 1 1 3)"
  by code_simp

lemma benchAlloc_main_6_3_1: "benchAlloc_main 6 3 1 = Inr (bench_model 6 3 2 1 1 1)"
  by (simp add: benchAlloc_main_def num_bench_def num_players_per_court_def min_bench_def
      max_bench_def distance_on_bench_def floor_quot_def ceil_quot_def
      too_large_for_float_def float_limit_def)

lemma rota6_solution: "solution (bench_assignment rota6 3) (bench_model 6 3 2 1 1 1)"
  by code_simp

subsection \<open>Roster counts and spacing\<close>

text \<open>
  C6. In every solution of the model that \<open>main\<close> builds, every round benches exactly
  \<open>num_bench\<close> players, and every player is benched between
  \<open>floor(num_rounds*num_bench/num_players)\<close> and \<open>ceil(num_rounds*num_bench/num_players)\<close>
  times.
\<close>

theorem bench_roster_counts:
  assumes "benchAlloc_main num_players num_rounds num_courts = Inr m" and "solution a m"
  shows "(r < nat num_rounds \<longrightarrow>
            int (card {p. p < nat num_players \<and> a (Bench p r)}) = num_bench num_players num_courts)
       \<and> (p < nat num_players \<longrightarrow>
            \<lfloor>real_of_int (num_rounds * num_bench num_players num_courts) / real_of_int num_players\<rfloor>
              \<le> int (card {r. r < nat num_rounds \<and> a (Bench p r)})
          \<and> int (card {r. r < nat num_rounds \<and> a (Bench p r)})
              \<le> \<lceil>real_of_int (num_rounds * num_bench num_players num_courts) / real_of_int num_players\<rceil>)"
proof -
  let ?nb = "num_bench num_players num_courts"
  from assms(1) obtain minb maxb d where
    minb: "min_bench num_players num_rounds ?nb = Inr minb" and
    maxb: "max_bench num_players num_rounds ?nb = Inr maxb" and
    m: "m = bench_model (nat num_players) (nat num_rounds) ?nb minb maxb d"
    by (rule benchAlloc_main_Inr)
  from assms(2) m have
    c1: "list_all (holds a) (bench_constraint1 (nat num_players) (nat num_rounds) ?nb)" and
    c2: "list_all (holds a) (bench_constraint2 (nat num_players) (nat num_rounds) minb maxb)"
    by (simp_all add: solution_bench_model)
  have round: "int (card {p. p < nat num_players \<and> a (Bench p r)}) = ?nb" if "r < nat num_rounds"
    using c1 that by (simp add: holds_constraint1 total_upt_card)
  have player: "minb \<le> int (card {r. r < nat num_rounds \<and> a (Bench p r)})
      \<and> int (card {r. r < nat num_rounds \<and> a (Bench p r)}) \<le> maxb" if p: "p < nat num_players"
  proof -
    from holds_constraint2(1)[OF c2 p]
    have "{r. r < nat num_rounds \<and> a (B_bench p r)} = {r. r < nat num_rounds \<and> a (Bench p r)}"
      by auto
    then have "total a (map (B_bench p) [0..<nat num_rounds])
        = int (card {r. r < nat num_rounds \<and> a (Bench p r)})"
      by (simp add: total_upt_card)
    with holds_constraint2(2,3)[OF c2 p] show ?thesis by simp
  qed
  from minb have "minb = \<lfloor>real_of_int (num_rounds * ?nb) / real_of_int num_players\<rfloor>"
    unfolding min_bench_def by (rule floor_quot_real)
  moreover from maxb have "maxb = \<lceil>real_of_int (num_rounds * ?nb) / real_of_int num_players\<rceil>"
    unfolding max_bench_def by (rule ceil_quot_real)
  ultimately show ?thesis using round player by blast
qed

text \<open>
  The five-player rota is a solution, and the bounds hold there for round 0 and player 0.
\<close>

theorem bench_roster_counts_witness:
  "benchAlloc_main 5 5 1 = Inr (bench_model 5 5 1 1 1 3)
   \<and> solution (bench_assignment rota5 5) (bench_model 5 5 1 1 1 3)
   \<and> int (card {p. p < nat 5 \<and> bench_assignment rota5 5 (Bench p 0)}) = num_bench 5 1
   \<and> \<lfloor>real_of_int (5 * num_bench 5 1) / real_of_int 5\<rfloor>
        \<le> int (card {r. r < nat 5 \<and> bench_assignment rota5 5 (Bench 0 r)})
   \<and> int (card {r. r < nat 5 \<and> bench_assignment rota5 5 (Bench 0 r)})
        \<le> \<lceil>real_of_int (5 * num_bench 5 1) / real_of_int 5\<rceil>"
  using bench_roster_counts[OF benchAlloc_main_5_5_1 rota5_solution, of 0 0]
    benchAlloc_main_5_5_1 rota5_solution
  by simp

text \<open>
  C5 (amended). What constraint 3 enforces is pairwise: a player benched in round \<open>r\<close> is
  not benched in any of the next \<open>distance_on_bench\<close> rounds, cyclically. The claim's
  window \<open>r, \<dots>, r+distance_on_bench-1\<close> is therefore never all-benched when
  \<open>distance_on_bench\<close> is at least 2.
\<close>

theorem bench_spacing:
  assumes "benchAlloc_main num_players num_rounds num_courts = Inr m" and "solution a m"
    and "distance_on_bench num_players (num_bench num_players num_courts) = Inr d"
    and "p < nat num_players" and "r < nat num_rounds"
  shows "(1 \<le> k \<and> k \<le> nat d \<longrightarrow>
            \<not> (a (Bench p r) \<and> a (Bench p ((r + k) mod nat num_rounds))))
       \<and> (2 \<le> d \<longrightarrow> \<not> benched_whole_window a p r (nat d) (nat num_rounds))"
proof -
  let ?nb = "num_bench num_players num_courts"
  from assms(1) obtain minb maxb d' where
    d': "distance_on_bench num_players ?nb = Inr d'" and
    m: "m = bench_model (nat num_players) (nat num_rounds) ?nb minb maxb d'"
    by (rule benchAlloc_main_Inr)
  from d' assms(3) have "d' = d" by simp
  with assms(2) m have c3: "list_all (holds a) (bench_constraint3 (nat num_players) (nat num_rounds) d)"
    by (simp add: solution_bench_model)
  have pair: "\<not> (a (Bench p r) \<and> a (Bench p ((r + j) mod nat num_rounds)))"
    if "1 \<le> j" "j \<le> nat d" for j
    using holds_constraint3[OF c3 assms(4,5), of "r + j"] that by simp
  have "\<not> benched_whole_window a p r (nat d) (nat num_rounds)" if "2 \<le> d"
  proof
    assume "benched_whole_window a p r (nat d) (nat num_rounds)"
    then have all: "\<forall>j<nat d. a (Bench p ((r + j) mod nat num_rounds))"
      by (simp add: benched_whole_window_def list_all_iff)
    from that have "0 < nat d" "1 < nat d" by simp_all
    with all have "a (Bench p ((r + 0) mod nat num_rounds))" "a (Bench p ((r + 1) mod nat num_rounds))"
      by blast+
    with assms(5) pair[of 1] that show False by simp
  qed
  with pair show ?thesis by blast
qed

text \<open>
  In the five-player rota the distance is 3: player 0 sits out round 0, not round 2, and
  not the whole window.
\<close>

theorem bench_spacing_witness:
  "benchAlloc_main 5 5 1 = Inr (bench_model 5 5 1 1 1 3)
   \<and> solution (bench_assignment rota5 5) (bench_model 5 5 1 1 1 3)
   \<and> distance_on_bench 5 (num_bench 5 1) = Inr 3
   \<and> bench_assignment rota5 5 (Bench 0 0)
   \<and> \<not> bench_assignment rota5 5 (Bench 0 ((0 + 2) mod nat 5))
   \<and> \<not> benched_whole_window (bench_assignment rota5 5) 0 0 (nat 3) (nat 5)"
proof -
  have d: "distance_on_bench 5 (num_bench 5 1) = Inr 3"
    by (simp add: distance_on_bench_def num_bench_def num_players_per_court_def ceil_quot_def
        too_large_for_float_def float_limit_def)
  have b: "bench_assignment rota5 5 (Bench 0 0)" by (simp add: rota5_def)
  from bench_spacing[OF benchAlloc_main_5_5_1 rota5_solution d, of 0 0 2] b
  show ?thesis using benchAlloc_main_5_5_1 rota5_solution d by simp
qed

text \<open>
  C5 as stated fails when \<open>distance_on_bench = 1\<close>: with six players, three rounds and
  one court the window of round 0 is round 0 alone, and player 0 is benched in it, in a
  solution of the model.
\<close>

theorem bench_spacing_counterexample:
  "benchAlloc_main 6 3 1 = Inr (bench_model 6 3 2 1 1 1)
   \<and> solution (bench_assignment rota6 3) (bench_model 6 3 2 1 1 1)
   \<and> distance_on_bench 6 (num_bench 6 1) = Inr 1
   \<and> benched_whole_window (bench_assignment rota6 3) 0 0 (nat 1) (nat 3)"
  using benchAlloc_main_6_3_1 rota6_solution
  by (simp add: distance_on_bench_def num_bench_def num_players_per_court_def ceil_quot_def
      too_large_for_float_def float_limit_def benched_whole_window_def rota6_def)

section \<open>Properties of GroupPairer\<close>

subsection \<open>What a solution of the grouping model satisfies\<close>

lemma list_all_map_ball: "list_all P (map f xs) = (\<forall>x\<in>set xs. P (f x))"
  by (induction xs) auto

lemma total_ge_two:
  assumes "x \<in> set xs" "y \<in> set xs" "x \<noteq> y" "a x" "a y"
  shows "2 \<le> total a xs"
proof -
  have "{x, y} \<subseteq> set (filter a xs)" using assms by simp
  then have "card {x, y} \<le> card (set (filter a xs))" by (intro card_mono) simp_all
  also have "\<dots> \<le> length (filter a xs)" by (rule card_length)
  finally show ?thesis using assms(3) by (simp add: total_length_filter)
qed

lemma total_pos_ex: "0 < total a xs \<Longrightarrow> \<exists>x\<in>set xs. a x"
  using total_zero_iff[of a xs] by auto

lemma teamAlloc_main_Inr:
  assumes "teamAlloc_main num_players num_rounds num_courts bench_list = Inr m"
  shows "\<exists>c4. team_constraint4 (nat num_players) (nat num_rounds) num_courts
        (num_bench num_players num_courts) bench_list = Inr c4 \<and>
    constraints m =
       team_constraint1 (nat num_players) (nat num_rounds) num_courts
       @ team_constraint2 (nat num_players) (nat num_rounds) num_courts (num_bench num_players num_courts)
       @ team_constraint3 (nat num_players) (nat num_rounds) num_courts @ c4
       @ team_constraint5 (nat num_players) (nat num_rounds) num_courts
       @ team_duo_constraints (nat num_players) (nat num_rounds) num_courts
       @ team_constraint6 (nat num_players) (nat num_rounds) num_courts
       @ team_constraint7 (nat num_players) (nat num_rounds) num_courts"
proof (cases "team_constraint4 (nat num_players) (nat num_rounds) num_courts
        (num_bench num_players num_courts) bench_list")
  case (Inl e)
  with assms show ?thesis
    by (simp add: teamAlloc_main_def Let_def split: sum.splits if_splits)
next
  case (Inr c4)
  with assms have "m = \<lparr>constraints =
       team_constraint1 (nat num_players) (nat num_rounds) num_courts
       @ team_constraint2 (nat num_players) (nat num_rounds) num_courts (num_bench num_players num_courts)
       @ team_constraint3 (nat num_players) (nat num_rounds) num_courts @ c4
       @ team_constraint5 (nat num_players) (nat num_rounds) num_courts
       @ team_duo_constraints (nat num_players) (nat num_rounds) num_courts
       @ team_constraint6 (nat num_players) (nat num_rounds) num_courts
       @ team_constraint7 (nat num_players) (nat num_rounds) num_courts, objective = None\<rparr>"
    by (simp add: teamAlloc_main_def Let_def split: sum.splits if_splits)
  with Inr show ?thesis by simp
qed

lemma team_solution_parts:
  assumes "teamAlloc_main num_players num_rounds num_courts bench_list = Inr m" and "solution a m"
  shows "list_all (holds a) (team_constraint1 (nat num_players) (nat num_rounds) num_courts)"
    and "list_all (holds a) (team_constraint3 (nat num_players) (nat num_rounds) num_courts)"
    and "list_all (holds a) (team_constraint5 (nat num_players) (nat num_rounds) num_courts)"
    and "list_all (holds a) (team_duo_constraints (nat num_players) (nat num_rounds) num_courts)"
    and "list_all (holds a) (team_constraint6 (nat num_players) (nat num_rounds) num_courts)"
    and "list_all (holds a) (team_constraint7 (nat num_players) (nat num_rounds) num_courts)"
proof -
  from teamAlloc_main_Inr[OF assms(1)] obtain c4 where "constraints m =
       team_constraint1 (nat num_players) (nat num_rounds) num_courts
       @ team_constraint2 (nat num_players) (nat num_rounds) num_courts (num_bench num_players num_courts)
       @ team_constraint3 (nat num_players) (nat num_rounds) num_courts @ c4
       @ team_constraint5 (nat num_players) (nat num_rounds) num_courts
       @ team_duo_constraints (nat num_players) (nat num_rounds) num_courts
       @ team_constraint6 (nat num_players) (nat num_rounds) num_courts
       @ team_constraint7 (nat num_players) (nat num_rounds) num_courts" by blast
  with assms(2) have *: "list_all (holds a) (team_constraint1 (nat num_players) (nat num_rounds) num_courts
       @ team_constraint2 (nat num_players) (nat num_rounds) num_courts (num_bench num_players num_courts)
       @ team_constraint3 (nat num_players) (nat num_rounds) num_courts @ c4
       @ team_constraint5 (nat num_players) (nat num_rounds) num_courts
       @ team_duo_constraints (nat num_players) (nat num_rounds) num_courts
       @ team_constraint6 (nat num_players) (nat num_rounds) num_courts
       @ team_constraint7 (nat num_players) (nat num_rounds) num_courts)"
    by (simp only: solution_def)
  from * show "list_all (holds a) (team_constraint1 (nat num_players) (nat num_rounds) num_courts)"
    and "list_all (holds a) (team_constraint3 (nat num_players) (nat num_rounds) num_courts)"
    and "list_all (holds a) (team_constraint5 (nat num_players) (nat num_rounds) num_courts)"
    and "list_all (holds a) (team_duo_constraints (nat num_players) (nat num_rounds) num_courts)"
    and "list_all (holds a) (team_constraint6 (nat num_players) (nat num_rounds) num_courts)"
    and "list_all (holds a) (team_constraint7 (nat num_players) (nat num_rounds) num_courts)"
    by (simp_all only: list_all_append simp_thms)
qed

lemma holds_team_constraint5:
  assumes "list_all (holds a) (team_constraint5 np nr num_courts)" and "p1 < p2" and "p2 < np"
  shows "\<exists>r<nr. \<exists>c<nat num_courts. a (Games p1 r c) \<and> a (Games p2 r c)"
proof -
  let ?bs = "\<lambda>p1 p2. concat (map (\<lambda>round. map (\<lambda>court. B_share p1 p2 round court)
            (all_played_courts num_courts)) [0..<nr])"
  from assms(1) have A: "\<forall>p1\<in>set [0..<np]. \<forall>p2\<in>set [p1 + 1..<np].
      (\<forall>round\<in>set [0..<nr]. \<forall>court\<in>set (all_played_courts num_courts).
         holds a (Linear [Games p1 round court, Games p2 round court] EQ [] 2
            (Some (Lit (B_share p1 p2 round court)))) \<and>
         holds a (Linear [Games p1 round court, Games p2 round court] NE [] 2
            (Some (NotLit (B_share p1 p2 round court)))))
      \<and> holds a (Linear (?bs p1 p2) GT [] 0 None)"
    by (simp only: team_constraint5_def list_all_concat_map list_all_append list.pred_inject simp_thms)
  have m1: "p1 \<in> set [0..<np]" using assms(2,3) by simp
  have m2: "p2 \<in> set [p1 + 1..<np]" using assms(2,3) by (simp only: set_upt atLeastLessThan_iff) arith
  note Ap = bspec[OF bspec[OF A m1] m2]
  from Ap have "holds a (Linear (?bs p1 p2) GT [] 0 None)" by (rule conjunct2)
  then have "0 < total a (?bs p1 p2)" by (simp add: total_def)
  then obtain x where x: "x \<in> set (?bs p1 p2)" "a x" by (blast dest: total_pos_ex)
  from x(1) obtain r c where rc: "r \<in> set [0..<nr]" "c \<in> set (all_played_courts num_courts)"
      "x = B_share p1 p2 r c"
    by (auto simp del: set_upt)
  from bspec[OF bspec[OF conjunct1[OF Ap] rc(1)] rc(2)]
  have "holds a (Linear [Games p1 r c, Games p2 r c] EQ [] 2 (Some (Lit (B_share p1 p2 r c))))"
    by (rule conjunct1)
  with x(2) rc(3) have "a (Games p1 r c) \<and> a (Games p2 r c)"
    by (simp add: total_def Value_def split: if_splits)
  with rc(1,2) show ?thesis by (auto simp: all_played_courts_def)
qed

lemma holds_team_constraint7:
  assumes "list_all (holds a) (team_constraint7 np nr num_courts)" and "p1 < p2" and "p2 < np"
    and "r < nr" "s < 2 * nat num_courts" "a (Duo p1 r s)" "a (Duo p2 r s)"
    and "r' < nr" "s' < 2 * nat num_courts" "a (Duo p1 r' s')" "a (Duo p2 r' s')"
  shows "r = r' \<and> s = s'"
proof -
  let ?bs = "\<lambda>p1 p2. concat (map (\<lambda>round. concat (map (\<lambda>court.
            [B_partner p1 p2 round (court * 2), B_partner p1 p2 round (court * 2 + 1)])
            (all_played_courts num_courts))) [0..<nr])"
  from assms(1) have A: "\<forall>p1\<in>set [0..<np]. \<forall>p2\<in>set [p1 + 1..<np].
      (\<forall>round\<in>set [0..<nr]. \<forall>court\<in>set (all_played_courts num_courts).
         holds a (Linear [Duo p1 round (court * 2), Duo p2 round (court * 2)] EQ [] 2
            (Some (Lit (B_partner p1 p2 round (court * 2))))) \<and>
         holds a (Linear [Duo p1 round (court * 2), Duo p2 round (court * 2)] NE [] 2
            (Some (NotLit (B_partner p1 p2 round (court * 2))))) \<and>
         holds a (Linear [Duo p1 round (court * 2 + 1), Duo p2 round (court * 2 + 1)] EQ [] 2
            (Some (Lit (B_partner p1 p2 round (court * 2 + 1))))) \<and>
         holds a (Linear [Duo p1 round (court * 2 + 1), Duo p2 round (court * 2 + 1)] NE [] 2
            (Some (NotLit (B_partner p1 p2 round (court * 2 + 1))))))
      \<and> holds a (Linear (?bs p1 p2) LT [] 2 None)"
    by (simp only: team_constraint7_def list_all_concat_map list_all_append list.pred_inject simp_thms)
  have m1: "p1 \<in> set [0..<np]" using assms(2,3) by simp
  have m2: "p2 \<in> set [p1 + 1..<np]" using assms(2,3) by (simp only: set_upt atLeastLessThan_iff) arith
  note Ap = bspec[OF bspec[OF A m1] m2]
  from Ap have "holds a (Linear (?bs p1 p2) LT [] 2 None)" by (rule conjunct2)
  then have lt: "total a (?bs p1 p2) < 2" by (simp add: total_def)
  have ind: "B_partner p1 p2 t u \<in> set (?bs p1 p2) \<and> a (B_partner p1 p2 t u)"
    if t: "t < nr" and u: "u < 2 * nat num_courts" and d: "a (Duo p1 t u)" "a (Duo p2 t u)" for t u
  proof -
    have mt: "t \<in> set [0..<nr]" using t by simp
    have mc: "u div 2 \<in> set (all_played_courts num_courts)"
      using u by (simp add: all_played_courts_def)
    have u2: "u = u div 2 * 2 \<or> u = u div 2 * 2 + 1" by arith
    have "B_partner p1 p2 t u \<in> set [B_partner p1 p2 t (u div 2 * 2), B_partner p1 p2 t (u div 2 * 2 + 1)]"
      using u2 by auto
    with mc have "B_partner p1 p2 t u \<in> set (concat (map (\<lambda>court.
            [B_partner p1 p2 t (court * 2), B_partner p1 p2 t (court * 2 + 1)])
            (all_played_courts num_courts)))"
      by (rule in_concat_map)
    with mt have in_bs: "B_partner p1 p2 t u \<in> set (?bs p1 p2)" by (rule in_concat_map)
    note H = bspec[OF bspec[OF conjunct1[OF Ap] mt] mc]
    from H have ne0: "holds a (Linear [Duo p1 t (u div 2 * 2), Duo p2 t (u div 2 * 2)] NE [] 2
            (Some (NotLit (B_partner p1 p2 t (u div 2 * 2)))))" by blast
    from H have ne1: "holds a (Linear [Duo p1 t (u div 2 * 2 + 1), Duo p2 t (u div 2 * 2 + 1)] NE [] 2
            (Some (NotLit (B_partner p1 p2 t (u div 2 * 2 + 1)))))" by blast
    from u2 have "a (B_partner p1 p2 t u)"
    proof
      assume e: "u = u div 2 * 2"
      from ne0 d show ?thesis unfolding e[symmetric] by (simp add: total_def Value_def)
    next
      assume e: "u = u div 2 * 2 + 1"
      from ne1 d show ?thesis unfolding e[symmetric] by (simp add: total_def Value_def)
    qed
    with in_bs show ?thesis by simp
  qed
  show ?thesis
  proof (rule ccontr)
    assume "\<not> (r = r' \<and> s = s')"
    then have ne: "B_partner p1 p2 r s \<noteq> B_partner p1 p2 r' s'" by simp
    note i1 = ind[OF assms(4-7)] and i2 = ind[OF assms(8-11)]
    have "2 \<le> total a (?bs p1 p2)"
      by (rule total_ge_two[OF conjunct1[OF i1] conjunct1[OF i2] ne conjunct2[OF i1] conjunct2[OF i2]])
    with lt show False by simp
  qed
qed

subsection \<open>Reading the bench file\<close>

lemma pin_player_Inr:
  assumes "pin_player np num_courts bl r s = Inr s1"
  shows "count s < length bl \<and> 1 \<le> bl ! count s \<and> bl ! count s \<le> int np \<and> 0 \<le> num_courts
    \<and> s1 = s\<lparr>bench := bench s @ [bl ! count s],
             bench_assignements := (bench_assignements s)
               [nat (bl ! count s - 1) := (bench_assignements s ! nat (bl ! count s - 1))[r := 1]],
             pinned := pinned s @
               [Linear [Games (nat (bl ! count s - 1)) r (nat num_courts)] EQ [] 1 None],
             count := count s + 1\<rparr>"
  using assms by (auto simp: pin_player_def Let_def split: if_splits)

lemma pin_player_ok:
  assumes "count s < length bl" "1 \<le> bl ! count s" "bl ! count s \<le> int np" "0 \<le> num_courts"
  shows "\<exists>s1. pin_player np num_courts bl r s = Inr s1"
  using assms by (auto simp: pin_player_def Let_def)

lemma repeat_Suc_Inr:
  "repeat (Suc k) f s = Inr s' \<longleftrightarrow> (\<exists>s1. f s = Inr s1 \<and> repeat k f s1 = Inr s')"
  by (simp split: sum.splits)

lemma repeat_pin_Inr:
  assumes "repeat k (pin_player np num_courts bl r) s = Inr s'"
  shows "count s' = count s + k"
    and "k = 0 \<or> (count s + k \<le> length bl \<and> 0 \<le> num_courts)"
    and "\<forall>i<k. 1 \<le> bl ! (count s + i) \<and> bl ! (count s + i) \<le> int np"
    and "pinned s' = pinned s @ map (\<lambda>i.
           Linear [Games (nat (bl ! (count s + i) - 1)) r (nat num_courts)] EQ [] 1 None) [0..<k]"
    and "bench_matrix s' = bench_matrix s"
  using assms
proof (induction k arbitrary: s)
  case 0
  { case 1 then show ?case by simp }
  { case 2 then show ?case by simp }
  { case 3 then show ?case by simp }
  { case 4 then show ?case by simp }
  { case 5 then show ?case by simp }
next
  case (Suc k)
  { case 1
    then obtain s1 where s1: "pin_player np num_courts bl r s = Inr s1" and
      r: "repeat k (pin_player np num_courts bl r) s1 = Inr s'"
      unfolding repeat_Suc_Inr by blast
    from pin_player_Inr[OF s1] Suc.IH(1)[OF r] show ?case by simp }
  { case 2
    then obtain s1 where s1: "pin_player np num_courts bl r s = Inr s1" and
      r: "repeat k (pin_player np num_courts bl r) s1 = Inr s'"
      unfolding repeat_Suc_Inr by blast
    from pin_player_Inr[OF s1] Suc.IH(2)[OF r] show ?case by auto }
  { case 3
    then obtain s1 where s1: "pin_player np num_courts bl r s = Inr s1" and
      r: "repeat k (pin_player np num_courts bl r) s1 = Inr s'"
      unfolding repeat_Suc_Inr by blast
    from pin_player_Inr[OF s1] have c: "count s1 = Suc (count s)" 
      and e: "1 \<le> bl ! count s \<and> bl ! count s \<le> int np" by simp_all
    show ?case
    proof (intro allI impI)
      fix i assume "i < Suc k"
      then show "1 \<le> bl ! (count s + i) \<and> bl ! (count s + i) \<le> int np"
        using Suc.IH(3)[OF r] c e by (cases i) simp_all
    qed }
  { case 4
    then obtain s1 where s1: "pin_player np num_courts bl r s = Inr s1" and
      r: "repeat k (pin_player np num_courts bl r) s1 = Inr s'"
      unfolding repeat_Suc_Inr by blast
    from pin_player_Inr[OF s1] have c: "count s1 = Suc (count s)" 
      and p: "pinned s1 = pinned s @
               [Linear [Games (nat (bl ! count s - 1)) r (nat num_courts)] EQ [] 1 None]" by simp_all
    have "map (\<lambda>i. Linear [Games (nat (bl ! (count s + i) - 1)) r (nat num_courts)] EQ [] 1 None) [0..<Suc k]
       = Linear [Games (nat (bl ! count s - 1)) r (nat num_courts)] EQ [] 1 None
         # map (\<lambda>i. Linear [Games (nat (bl ! (count s1 + i) - 1)) r (nat num_courts)] EQ [] 1 None) [0..<k]"
      unfolding c by (simp only: upt_conv_Cons[of 0 "Suc k"] map_Suc_upt[symmetric] list.map map_map o_def)
         simp
    with Suc.IH(4)[OF r] p show ?case by simp }
  { case 5
    then obtain s1 where s1: "pin_player np num_courts bl r s = Inr s1" and
      r: "repeat k (pin_player np num_courts bl r) s1 = Inr s'"
      unfolding repeat_Suc_Inr by blast
    from pin_player_Inr[OF s1] Suc.IH(5)[OF r] show ?case by simp }
qed

lemma repeat_pin_ok:
  assumes "k = 0 \<or> (count s + k \<le> length bl \<and> 0 \<le> num_courts)"
    and "\<forall>i<k. 1 \<le> bl ! (count s + i) \<and> bl ! (count s + i) \<le> int np"
  shows "\<exists>s'. repeat k (pin_player np num_courts bl r) s = Inr s'"
  using assms
proof (induction k arbitrary: s)
  case 0
  then show ?case by simp
next
  case (Suc k)
  from Suc.prems have "count s < length bl" "0 \<le> num_courts" by simp_all
  moreover from Suc.prems(2) have "1 \<le> bl ! count s \<and> bl ! count s \<le> int np"
    by (metis add.right_neutral zero_less_Suc)
  ultimately obtain s1 where s1: "pin_player np num_courts bl r s = Inr s1"
    using pin_player_ok by blast
  from pin_player_Inr[OF s1] have c: "count s1 = Suc (count s)" by simp
  have "k = 0 \<or> (count s1 + k \<le> length bl \<and> 0 \<le> num_courts)"
    using Suc.prems(1) c by simp
  moreover have "\<forall>i<k. 1 \<le> bl ! (count s1 + i) \<and> bl ! (count s1 + i) \<le> int np"
  proof (intro allI impI)
    fix i assume "i < k"
    then have "Suc i < Suc k" by simp
    with Suc.prems(2) have "1 \<le> bl ! (count s + Suc i) \<and> bl ! (count s + Suc i) \<le> int np"
      by blast
    then show "1 \<le> bl ! (count s1 + i) \<and> bl ! (count s1 + i) \<le> int np" by (simp add: c)
  qed
  ultimately obtain s' where "repeat k (pin_player np num_courts bl r) s1 = Inr s'"
    using Suc.IH by blast
  with s1 show ?case by simp
qed

text \<open>The matrix after the inner loop of round r.\<close>

lemma repeat_pin_matrix:
  assumes "repeat k (pin_player np num_courts bl r) s = Inr s'"
    and "length (bench_assignements s) = np"
  shows "length (bench_assignements s') = np"
    and "\<forall>p<np. length (bench_assignements s' ! p) = length (bench_assignements s ! p)"
    and "\<forall>p<np. \<forall>t<length (bench_assignements s ! p). bench_assignements s' ! p ! t =
           (if t = r \<and> (\<exists>i<k. nat (bl ! (count s + i) - 1) = p) then 1
            else bench_assignements s ! p ! t)"
  using assms
proof (induction k arbitrary: s)
  case 0
  { case 1 then show ?case by simp }
  { case 2 then show ?case by simp }
  { case 3 then show ?case by simp }
next
  case (Suc k)
  { case 1
    then obtain s1 where s1: "pin_player np num_courts bl r s = Inr s1" and
      r: "repeat k (pin_player np num_courts bl r) s1 = Inr s'"
      unfolding repeat_Suc_Inr by blast
    from pin_player_Inr[OF s1] 1(2) have "length (bench_assignements s1) = np" by simp
    from Suc.IH(1)[OF r this] show ?case . }
  { case 2
    then obtain s1 where s1: "pin_player np num_courts bl r s = Inr s1" and
      r: "repeat k (pin_player np num_courts bl r) s1 = Inr s'"
      unfolding repeat_Suc_Inr by blast
    from pin_player_Inr[OF s1] 2(2) have l1: "length (bench_assignements s1) = np" by simp
    from pin_player_Inr[OF s1] 2(2)
    have "\<forall>p<np. length (bench_assignements s1 ! p) = length (bench_assignements s ! p)"
      by (auto simp: nth_list_update)
    with Suc.IH(2)[OF r l1] show ?case by simp }
  { case 3
    then obtain s1 where s1: "pin_player np num_courts bl r s = Inr s1" and
      r: "repeat k (pin_player np num_courts bl r) s1 = Inr s'"
      unfolding repeat_Suc_Inr by blast
    note P = pin_player_Inr[OF s1]
    from P 3(2) have l1: "length (bench_assignements s1) = np" by simp
    from P have c: "count s1 = Suc (count s)" by simp
    from P 3(2)
    have len: "\<forall>p<np. length (bench_assignements s1 ! p) = length (bench_assignements s ! p)"
      by (auto simp: nth_list_update)
    from P 3(2)
    have one: "\<forall>p<np. \<forall>t<length (bench_assignements s ! p). bench_assignements s1 ! p ! t =
           (if t = r \<and> nat (bl ! count s - 1) = p then 1 else bench_assignements s ! p ! t)"
      by (auto simp: nth_list_update)
    show ?case
    proof (intro allI impI)
      fix p t assume p: "p < np" and t: "t < length (bench_assignements s ! p)"
      from len p t have t1: "t < length (bench_assignements s1 ! p)" by simp
      have ex: "(\<exists>i<Suc k. nat (bl ! (count s + i) - 1) = p) \<longleftrightarrow>
            nat (bl ! count s - 1) = p \<or> (\<exists>i<k. nat (bl ! (count s1 + i) - 1) = p)"
        unfolding c by (auto simp: less_Suc_eq_0_disj)
      from Suc.IH(3)[OF r l1] p t1
      have "bench_assignements s' ! p ! t =
           (if t = r \<and> (\<exists>i<k. nat (bl ! (count s1 + i) - 1) = p) then 1
            else bench_assignements s1 ! p ! t)" by blast
      also from one p t have "bench_assignements s1 ! p ! t =
           (if t = r \<and> nat (bl ! count s - 1) = p then 1 else bench_assignements s ! p ! t)"
        by blast
      finally show "bench_assignements s' ! p ! t =
           (if t = r \<and> (\<exists>i<Suc k. nat (bl ! (count s + i) - 1) = p) then 1
            else bench_assignements s ! p ! t)"
        unfolding ex by auto
    qed }
qed

lemma for_each_snoc:
  "for_each (xs @ [x]) f s = Inr s' \<longleftrightarrow> (\<exists>s1. for_each xs f s = Inr s1 \<and> f x s1 = Inr s')"
  by (induction xs arbitrary: s) (auto split: sum.splits)

lemma read_round_Inr:
  "read_round np num_courts nb bl r s = Inr s' \<longleftrightarrow>
     (\<exists>s2. repeat (nat nb) (pin_player np num_courts bl r) (s\<lparr>bench := []\<rparr>) = Inr s2
        \<and> s' = s2\<lparr>bench_matrix := bench_matrix s2 @ [bench s2]\<rparr>)"
  by (auto simp: read_round_def split: sum.splits)

lemma read_rounds_Inr:
  assumes "for_each [0..<K] (read_round np num_courts nb bl)
      \<lparr>count = 0, bench_assignements = replicate np (replicate nr 0), bench = [],
        bench_matrix = [], pinned = []\<rparr> = Inr s"
    and "K \<le> nr"
  shows "count s = K * nat nb"
    and "K * nat nb = 0 \<or> (K * nat nb \<le> length bl \<and> 0 \<le> num_courts)"
    and "\<forall>i<K * nat nb. 1 \<le> bl ! i \<and> bl ! i \<le> int np"
    and "pinned s = concat (map (\<lambda>r. map (\<lambda>i.
           Linear [Games (nat (bl ! (r * nat nb + i) - 1)) r (nat num_courts)] EQ [] 1 None)
           [0..<nat nb]) [0..<K])"
    and "length (bench_assignements s) = np"
    and "\<forall>p<np. length (bench_assignements s ! p) = nr"
    and "\<forall>p<np. \<forall>t<nr. bench_assignements s ! p ! t =
           (if t < K \<and> (\<exists>i<nat nb. nat (bl ! (t * nat nb + i) - 1) = p) then 1 else 0)"
  using assms
proof (induction K arbitrary: s)
  case 0
  { case 1 then show ?case by auto }
  { case 2 then show ?case by auto }
  { case 3 then show ?case by auto }
  { case 4 then show ?case by auto }
  { case 5 then show ?case by auto }
  { case 6 then show ?case by auto }
  { case 7 then show ?case by auto }
next
  case (Suc K)
  let ?s0 = "\<lparr>count = 0, bench_assignements = replicate np (replicate nr 0), bench = [],
        bench_matrix = [], pinned = []\<rparr>"
  have step: "\<exists>s1 s2. for_each [0..<K] (read_round np num_courts nb bl) ?s0 = Inr s1
       \<and> repeat (nat nb) (pin_player np num_courts bl K) (s1\<lparr>bench := []\<rparr>) = Inr s2
       \<and> s = s2\<lparr>bench_matrix := bench_matrix s2 @ [bench s2]\<rparr>"
    if "for_each [0..<Suc K] (read_round np num_courts nb bl) ?s0 = Inr s" for s
    using that by (simp add: for_each_snoc read_round_Inr)
  { case 1
    from step[OF 1(1)] obtain s1 s2 where
      s1: "for_each [0..<K] (read_round np num_courts nb bl) ?s0 = Inr s1" and
      s2: "repeat (nat nb) (pin_player np num_courts bl K) (s1\<lparr>bench := []\<rparr>) = Inr s2" and
      s: "s = s2\<lparr>bench_matrix := bench_matrix s2 @ [bench s2]\<rparr>" by blast
    from 1(2) have K: "K \<le> nr" by simp
    from Suc.IH(1)[OF s1 K] repeat_pin_Inr(1)[OF s2] s show ?case by simp }
  { case 2
    from step[OF 2(1)] obtain s1 s2 where
      s1: "for_each [0..<K] (read_round np num_courts nb bl) ?s0 = Inr s1" and
      s2: "repeat (nat nb) (pin_player np num_courts bl K) (s1\<lparr>bench := []\<rparr>) = Inr s2" and
      s: "s = s2\<lparr>bench_matrix := bench_matrix s2 @ [bench s2]\<rparr>" by blast
    from 2(2) have K: "K \<le> nr" by simp
    from Suc.IH(1)[OF s1 K] repeat_pin_Inr(2)[OF s2] show ?case by auto }
  { case 3
    from step[OF 3(1)] obtain s1 s2 where
      s1: "for_each [0..<K] (read_round np num_courts nb bl) ?s0 = Inr s1" and
      s2: "repeat (nat nb) (pin_player np num_courts bl K) (s1\<lparr>bench := []\<rparr>) = Inr s2" and
      s: "s = s2\<lparr>bench_matrix := bench_matrix s2 @ [bench s2]\<rparr>" by blast
    from 3(2) have K: "K \<le> nr" by simp
    note c = Suc.IH(1)[OF s1 K]
    show ?case
    proof (intro allI impI)
      fix i assume i: "i < Suc K * nat nb"
      show "1 \<le> bl ! i \<and> bl ! i \<le> int np"
      proof (cases "i < K * nat nb")
        case True
        with Suc.IH(3)[OF s1 K] show ?thesis by blast
      next
        case False
        with i have "i - K * nat nb < nat nb" by simp
        with repeat_pin_Inr(3)[OF s2] c False show ?thesis by force
      qed
    qed }
  { case 4
    from step[OF 4(1)] obtain s1 s2 where
      s1: "for_each [0..<K] (read_round np num_courts nb bl) ?s0 = Inr s1" and
      s2: "repeat (nat nb) (pin_player np num_courts bl K) (s1\<lparr>bench := []\<rparr>) = Inr s2" and
      s: "s = s2\<lparr>bench_matrix := bench_matrix s2 @ [bench s2]\<rparr>" by blast
    from 4(2) have K: "K \<le> nr" by simp
    from Suc.IH(1)[OF s1 K] Suc.IH(4)[OF s1 K] repeat_pin_Inr(4)[OF s2] s show ?case by simp }
  { case 5
    from step[OF 5(1)] obtain s1 s2 where
      s1: "for_each [0..<K] (read_round np num_courts nb bl) ?s0 = Inr s1" and
      s2: "repeat (nat nb) (pin_player np num_courts bl K) (s1\<lparr>bench := []\<rparr>) = Inr s2" and
      s: "s = s2\<lparr>bench_matrix := bench_matrix s2 @ [bench s2]\<rparr>" by blast
    from 5(2) have K: "K \<le> nr" by simp
    from Suc.IH(5)[OF s1 K] have "length (bench_assignements (s1\<lparr>bench := []\<rparr>)) = np" by simp
    from repeat_pin_matrix(1)[OF s2 this] s show ?case by simp }
  { case 6
    from step[OF 6(1)] obtain s1 s2 where
      s1: "for_each [0..<K] (read_round np num_courts nb bl) ?s0 = Inr s1" and
      s2: "repeat (nat nb) (pin_player np num_courts bl K) (s1\<lparr>bench := []\<rparr>) = Inr s2" and
      s: "s = s2\<lparr>bench_matrix := bench_matrix s2 @ [bench s2]\<rparr>" by blast
    from 6(2) have K: "K \<le> nr" by simp
    from Suc.IH(5)[OF s1 K] have "length (bench_assignements (s1\<lparr>bench := []\<rparr>)) = np" by simp
    from repeat_pin_matrix(2)[OF s2 this] Suc.IH(6)[OF s1 K] s show ?case by simp }
  { case 7
    from step[OF 7(1)] obtain s1 s2 where
      s1: "for_each [0..<K] (read_round np num_courts nb bl) ?s0 = Inr s1" and
      s2: "repeat (nat nb) (pin_player np num_courts bl K) (s1\<lparr>bench := []\<rparr>) = Inr s2" and
      s: "s = s2\<lparr>bench_matrix := bench_matrix s2 @ [bench s2]\<rparr>" by blast
    from 7(2) have K: "K \<le> nr" and Kr: "K < nr" by simp_all
    from Suc.IH(5)[OF s1 K] have l: "length (bench_assignements (s1\<lparr>bench := []\<rparr>)) = np" by simp
    note c = Suc.IH(1)[OF s1 K]
    note len = Suc.IH(6)[OF s1 K]
    note old = Suc.IH(7)[OF s1 K]
    note new = repeat_pin_matrix(3)[OF s2 l]
    show ?case
    proof (intro allI impI)
      fix p t assume p: "p < np" and t: "t < nr"
      from len p t have t1: "t < length (bench_assignements (s1\<lparr>bench := []\<rparr>) ! p)" by simp
      from new p t1 have "bench_assignements s2 ! p ! t =
           (if t = K \<and> (\<exists>i<nat nb. nat (bl ! (count (s1\<lparr>bench := []\<rparr>) + i) - 1) = p) then 1
            else bench_assignements (s1\<lparr>bench := []\<rparr>) ! p ! t)" by blast
      moreover from old p t have "bench_assignements s1 ! p ! t =
           (if t < K \<and> (\<exists>i<nat nb. nat (bl ! (t * nat nb + i) - 1) = p) then 1 else 0)" by blast
      ultimately show "bench_assignements s ! p ! t =
           (if t < Suc K \<and> (\<exists>i<nat nb. nat (bl ! (t * nat nb + i) - 1) = p) then 1 else 0)"
        using c s by (auto simp: less_Suc_eq)
    qed }
qed

lemma read_rounds_ok:
  assumes "K * nat nb = 0 \<or> (K * nat nb \<le> length bl \<and> 0 \<le> num_courts)"
    and "\<forall>i<K * nat nb. 1 \<le> bl ! i \<and> bl ! i \<le> int np"
    and "K \<le> nr"
  shows "\<exists>s. for_each [0..<K] (read_round np num_courts nb bl)
      \<lparr>count = 0, bench_assignements = replicate np (replicate nr 0), bench = [],
        bench_matrix = [], pinned = []\<rparr> = Inr s"
  using assms
proof (induction K)
  case 0
  then show ?case by simp
next
  case (Suc K)
  let ?s0 = "\<lparr>count = 0, bench_assignements = replicate np (replicate nr 0), bench = [],
        bench_matrix = [], pinned = []\<rparr>"
  have le: "K * nat nb \<le> Suc K * nat nb" by simp
  from Suc.prems(1) le have a1: "K * nat nb = 0 \<or> (K * nat nb \<le> length bl \<and> 0 \<le> num_courts)"
    by auto
  from Suc.prems(2) le have a2: "\<forall>i<K * nat nb. 1 \<le> bl ! i \<and> bl ! i \<le> int np"
    by (meson less_le_trans)
  from Suc.prems(3) have K: "K \<le> nr" by simp
  from Suc.IH[OF a1 a2 K] obtain s1 where
    s1: "for_each [0..<K] (read_round np num_courts nb bl) ?s0 = Inr s1" by blast
  note c = read_rounds_Inr(1)[OF s1 K]
  have b1: "nat nb = 0 \<or> (count (s1\<lparr>bench := []\<rparr>) + nat nb \<le> length bl \<and> 0 \<le> num_courts)"
    using Suc.prems(1) c by auto
  have b2: "\<forall>i<nat nb. 1 \<le> bl ! (count (s1\<lparr>bench := []\<rparr>) + i)
       \<and> bl ! (count (s1\<lparr>bench := []\<rparr>) + i) \<le> int np"
    using Suc.prems(2) c by simp
  from repeat_pin_ok[OF b1 b2] obtain s2 where
    "repeat (nat nb) (pin_player np num_courts bl K) (s1\<lparr>bench := []\<rparr>) = Inr s2" by blast
  with s1 show ?case by (simp add: for_each_snoc read_round_Inr)
qed

subsection \<open>The file written by BenchPlanner\<close>

lemma bench_row_length:
  "length (map (\<lambda>player. int player + 1) (filter (\<lambda>player. val player t) [0..<np]))
     = card {p. p < np \<and> val p t}"
proof -
  have "{i. i < np \<and> val ([0..<np] ! i) t} = {p. p < np \<and> val p t}" by auto
  then show ?thesis by (simp add: length_filter_conv_card)
qed

lemma concat_rows_length:
  assumes "\<forall>t<K. length (row t) = n"
  shows "length (concat (map row [0..<K])) = K * n"
  using assms by (induction K) simp_all

lemma concat_rows_nth:
  assumes "\<forall>t<K. length (row t) = n" and "t < K" and "i < n"
  shows "concat (map row [0..<K]) ! (t * n + i) = row t ! i"
  using assms
proof (induction K)
  case 0
  then show ?case by simp
next
  case (Suc K)
  from Suc.prems(1) have all: "\<forall>t<K. length (row t) = n" by simp
  have len: "length (concat (map row [0..<K])) = K * n" by (rule concat_rows_length[OF all])
  show ?case
  proof (cases "t < K")
    case True
    then have "Suc t \<le> K" by simp
    then have "Suc t * n \<le> K * n" by (rule mult_le_mono1)
    with Suc.prems(3) have "t * n + i < K * n" by simp
    with Suc.IH[OF all True Suc.prems(3)] len show ?thesis by (simp add: nth_append)
  next
    case False
    with Suc.prems(2) have "t = K" by simp
    with len show ?thesis by (simp add: nth_append)
  qed
qed

lemma bench_row_nth:
  assumes "i < length (filter (\<lambda>player. val player t) [0..<np])"
  shows "filter (\<lambda>player. val player t) [0..<np] ! i < np"
    and "val (filter (\<lambda>player. val player t) [0..<np] ! i) t"
proof -
  from assms have "filter (\<lambda>player. val player t) [0..<np] ! i
      \<in> set (filter (\<lambda>player. val player t) [0..<np])" by (rule nth_mem)
  then show "filter (\<lambda>player. val player t) [0..<np] ! i < np"
    and "val (filter (\<lambda>player. val player t) [0..<np] ! i) t" by simp_all
qed

lemma write_bench_entry:
  assumes "\<forall>t<nr. card {p. p < np \<and> val p t} = n" and "t < nr" and "i < n"
  shows "write_bench val np nr ! (t * n + i)
      = int (filter (\<lambda>player. val player t) [0..<np] ! i) + 1"
    and "i < length (filter (\<lambda>player. val player t) [0..<np])"
proof -
  let ?row = "\<lambda>round. map (\<lambda>player. int player + 1) (filter (\<lambda>player. val player round) [0..<np])"
  from assms(1) have all: "\<forall>t<nr. length (?row t) = n" by (simp only: bench_row_length)
  from all assms(2,3) show l: "i < length (filter (\<lambda>player. val player t) [0..<np])" by simp
  have "write_bench val np nr ! (t * n + i) = ?row t ! i"
    unfolding write_bench_def by (rule concat_rows_nth[OF all assms(2,3)])
  with l show "write_bench val np nr ! (t * n + i)
      = int (filter (\<lambda>player. val player t) [0..<np] ! i) + 1" by simp
qed

lemma write_bench_length:
  assumes "\<forall>t<nr. card {p. p < np \<and> val p t} = n"
  shows "length (write_bench val np nr) = nr * n"
proof -
  let ?row = "\<lambda>round. map (\<lambda>player. int player + 1) (filter (\<lambda>player. val player round) [0..<np])"
  from assms have all: "\<forall>t<nr. length (?row t) = n" by (simp only: bench_row_length)
  show ?thesis unfolding write_bench_def by (rule concat_rows_length[OF all])
qed

lemma write_bench_players:
  assumes "\<forall>t<nr. card {p. p < np \<and> val p t} = n" and "t < nr"
  shows "(\<exists>i<n. nat (write_bench val np nr ! (t * n + i) - 1) = p) \<longleftrightarrow> p < np \<and> val p t"
proof
  assume "\<exists>i<n. nat (write_bench val np nr ! (t * n + i) - 1) = p"
  then obtain i where i: "i < n" and p: "nat (write_bench val np nr ! (t * n + i) - 1) = p" by blast
  from write_bench_entry[OF assms i] p
  have "p = filter (\<lambda>player. val player t) [0..<np] ! i"
    and "i < length (filter (\<lambda>player. val player t) [0..<np])" by simp_all
  with bench_row_nth[of i val t np] show "p < np \<and> val p t" by simp
next
  assume "p < np \<and> val p t"
  then have "p \<in> set (filter (\<lambda>player. val player t) [0..<np])" by simp
  then have "\<exists>i<length (filter (\<lambda>player. val player t) [0..<np]).
      filter (\<lambda>player. val player t) [0..<np] ! i = p"
    by (simp only: in_set_conv_nth)
  then obtain i where i: "i < length (filter (\<lambda>player. val player t) [0..<np])"
    and p: "filter (\<lambda>player. val player t) [0..<np] ! i = p"
    by blast
  from assms have "length (filter (\<lambda>player. val player t) [0..<np]) = n"
    using bench_row_length[of val t np] by simp
  with i have i': "i < n" by simp
  from write_bench_entry(1)[OF assms i'] p
  have "nat (write_bench val np nr ! (t * n + i) - 1) = p" by simp
  with i' show "\<exists>i<n. nat (write_bench val np nr ! (t * n + i) - 1) = p" by blast
qed

lemma write_bench_in_range:
  assumes "\<forall>t<nr. card {p. p < np \<and> val p t} = n" and "j < nr * n"
  shows "1 \<le> write_bench val np nr ! j \<and> write_bench val np nr ! j \<le> int np"
proof -
  from assms(2) have n: "0 < n" by (cases n) simp_all
  let ?t = "j div n" and ?i = "j mod n"
  from assms(2) n have t: "?t < nr" by (simp add: less_mult_imp_div_less)
  from n have i: "?i < n" by simp
  have j: "j = ?t * n + ?i" by simp
  from write_bench_entry[OF assms(1) t i] bench_row_nth(1)[of ?i val ?t np]
  have "1 \<le> write_bench val np nr ! (?t * n + ?i) \<and> write_bench val np nr ! (?t * n + ?i) \<le> int np"
    by simp
  then show ?thesis by (simp only: j[symmetric])
qed

subsection \<open>Acceptance of the bench file and round trip\<close>






text \<open>
  C9. Writing a bench matrix with exactly \<open>num_bench\<close> benched players per round and
  reading the array back the way GroupPairer does succeeds and rebuilds the matrix,
  cell by cell; the array has \<open>num_rounds * num_bench\<close> entries.
\<close>

theorem bench_file_roundtrip:
  assumes "\<forall>r<nat num_rounds. int (card {p. p < nat num_players \<and> val p r})
             = num_bench num_players num_courts"
  shows "length (write_bench val (nat num_players) (nat num_rounds))
           = nat num_rounds * nat (num_bench num_players num_courts)
       \<and> (\<exists>s. read_bench (nat num_players) (nat num_rounds) num_courts
                 (num_bench num_players num_courts)
                 (write_bench val (nat num_players) (nat num_rounds)) = Inr s
             \<and> bench_assignements s =
                 map (\<lambda>p. map (\<lambda>r. if val p r then 1 else 0) [0..<nat num_rounds])
                   [0..<nat num_players])"
proof -
  let ?np = "nat num_players" and ?nr = "nat num_rounds"
  let ?nb = "num_bench num_players num_courts"
  let ?bl = "write_bench val ?np ?nr"
  from assms have cards: "\<forall>t<?nr. card {p. p < ?np \<and> val p t} = nat ?nb" by auto
  have len: "length ?bl = ?nr * nat ?nb" by (rule write_bench_length[OF cards])
  have c1: "?nr * nat ?nb = 0 \<or> (?nr * nat ?nb \<le> length ?bl \<and> 0 \<le> num_courts)"
  proof (cases "?nr * nat ?nb = 0")
    case True
    then show ?thesis by simp
  next
    case False
    then have r0: "0 < ?nr" and nb: "0 < ?nb" by simp_all
    have "card {p. p < ?np \<and> val p 0} \<le> card {..<?np}" by (intro card_mono) auto
    with cards r0 have "nat ?nb \<le> ?np" by simp
    with nb have "?nb \<le> num_players" by simp
    then have "0 \<le> num_courts" by (simp add: num_bench_def num_players_per_court_def)
    with len show ?thesis by simp
  qed
  have c2: "\<forall>i<?nr * nat ?nb. 1 \<le> ?bl ! i \<and> ?bl ! i \<le> int ?np"
    using write_bench_in_range[OF cards] by blast
  from read_rounds_ok[OF c1 c2 le_refl] obtain s where
    s: "for_each [0..<?nr] (read_round ?np num_courts ?nb ?bl)
      \<lparr>count = 0, bench_assignements = replicate ?np (replicate ?nr 0), bench = [],
        bench_matrix = [], pinned = []\<rparr> = Inr s" by blast
  note l1 = read_rounds_Inr(5)[OF s le_refl]
  note l2 = read_rounds_Inr(6)[OF s le_refl]
  note cells = read_rounds_Inr(7)[OF s le_refl]
  have cell: "bench_assignements s ! p ! t = (if val p t then 1 else 0)"
    if p: "p < ?np" and t: "t < ?nr" for p t
  proof -
    from cells p t have "bench_assignements s ! p ! t =
        (if t < ?nr \<and> (\<exists>i<nat ?nb. nat (?bl ! (t * nat ?nb + i) - 1) = p) then 1 else 0)"
      by blast
    with write_bench_players[OF cards t, of p] p t show ?thesis by simp
  qed
  have "bench_assignements s =
      map (\<lambda>p. map (\<lambda>r. if val p r then 1 else 0) [0..<?nr]) [0..<?np]"
  proof (rule nth_equalityI)
    show "length (bench_assignements s)
        = length (map (\<lambda>p. map (\<lambda>r. if val p r then 1 else 0) [0..<?nr]) [0..<?np])"
      using l1 by simp
  next
    fix p assume "p < length (bench_assignements s)"
    with l1 have p: "p < ?np" by simp
    have "bench_assignements s ! p = map (\<lambda>r. if val p r then 1 else 0) [0..<?nr]"
    proof (rule nth_equalityI)
      show "length (bench_assignements s ! p) = length (map (\<lambda>r. if val p r then 1 else 0) [0..<?nr])"
        using l2 p by simp
    next
      fix t assume "t < length (bench_assignements s ! p)"
      with l2 p have t: "t < ?nr" by simp
      with cell[OF p t] show "bench_assignements s ! p ! t
          = map (\<lambda>r. if val p r then 1 else 0) [0..<?nr] ! t" by simp
    qed
    with p show "bench_assignements s ! p
        = map (\<lambda>p. map (\<lambda>r. if val p r then 1 else 0) [0..<?nr]) [0..<?np] ! p" by simp
  qed
  with s len show ?thesis unfolding read_bench_def by blast
qed

text \<open>
  The five-player rota survives the round trip.
\<close>

theorem bench_file_roundtrip_witness:
  "length (write_bench rota5 (nat 5) (nat 5)) = nat 5 * nat (num_bench 5 1)
   \<and> (\<exists>s. read_bench (nat 5) (nat 5) 1 (num_bench 5 1) (write_bench rota5 (nat 5) (nat 5)) = Inr s
         \<and> bench_assignements s =
             map (\<lambda>p. map (\<lambda>r. if rota5 p r then 1 else 0) [0..<nat 5]) [0..<nat 5])"
proof -
  have "{p. p < nat 5 \<and> rota5 p r} = {r}" if "r < nat 5" for r
    using that by (auto simp: rota5_def)
  then have "\<forall>r<nat 5. int (card {p. p < nat 5 \<and> rota5 p r}) = num_bench 5 1"
    by (simp add: num_bench_def num_players_per_court_def)
  then show ?thesis by (rule bench_file_roundtrip)
qed

subsection \<open>Counting the players of a court\<close>

lemma total_upt_sum: "total a (map f [0..<n]) = (\<Sum>i<n. Value a (f i))"
  by (simp add: total_def interv_sum_list_conv_sum_set_nat atLeast0LessThan comp_def)

lemma sum_Value_card: "(\<Sum>i<(n::nat). Value a (f i)) = int (card {i. i < n \<and> a (f i)})"
  using total_upt_card[where a=a and f=f and n=n] by (simp add: total_upt_sum)

lemma holds_team_constraint1:
  assumes "list_all (holds a) (team_constraint1 np nr num_courts)"
    and "r < nr" and "c < nat num_courts"
  shows "total a (map (\<lambda>player. Games player r c) [0..<np]) = 4"
proof -
  from assms(1) have A: "\<forall>round\<in>set [0..<nr]. \<forall>court\<in>set (all_played_courts num_courts).
      holds a (Linear (map (\<lambda>player. Games player round court) [0..<np]) EQ []
        num_players_per_court None)"
    by (simp only: team_constraint1_def list_all_concat_map list_all_map_ball)
  have "r \<in> set [0..<nr]" "c \<in> set (all_played_courts num_courts)"
    using assms(2,3) by (simp_all add: all_played_courts_def)
  from bspec[OF bspec[OF A this(1)] this(2)] show ?thesis
    by (simp add: total_def num_players_per_court_def)
qed

lemma holds_team_constraint3:
  assumes "list_all (holds a) (team_constraint3 np nr num_courts)"
    and "p < np" and "r < nr"
  shows "total a (map (\<lambda>court. Games p r court) (all_courts num_courts)) = 1"
proof -
  from assms(1) have A: "\<forall>player\<in>set [0..<np]. \<forall>round\<in>set [0..<nr].
      holds a (ExactlyOne (map (\<lambda>court. Games player round court) (all_courts num_courts)))"
    by (simp only: team_constraint3_def list_all_concat_map list_all_map_ball)
  have "p \<in> set [0..<np]" "r \<in> set [0..<nr]" using assms(2,3) by simp_all
  from bspec[OF bspec[OF A this(1)] this(2)] show ?thesis by simp
qed

lemma one_court_per_round:
  assumes "list_all (holds a) (team_constraint3 np nr num_courts)"
    and "p < np" and "r < nr"
    and "c < nat (num_courts + 1)" "a (Games p r c)"
    and "c' < nat (num_courts + 1)" "a (Games p r c')"
  shows "c = c'"
proof (rule ccontr)
  assume "c \<noteq> c'"
  then have ne: "Games p r c \<noteq> Games p r c'" by simp
  have "Games p r c \<in> set (map (\<lambda>court. Games p r court) (all_courts num_courts))"
    "Games p r c' \<in> set (map (\<lambda>court. Games p r court) (all_courts num_courts))"
    using assms(4,6) by (simp_all add: all_courts_def)
  from total_ge_two[OF this ne assms(5,7)] holds_team_constraint3[OF assms(1-3)]
  show False by simp
qed

lemma bench_slot_count:
  assumes "list_all (holds a) (team_constraint1 np nr num_courts)"
    and "list_all (holds a) (team_constraint3 np nr num_courts)"
    and "0 \<le> num_courts" and "r < nr"
  shows "int (card {p. p < np \<and> a (Games p r (nat num_courts))}) = int np - num_courts * 4"
proof -
  let ?V = "\<lambda>p c. Value a (Games p r c)"
  have ac: "all_courts num_courts = [0..<Suc (nat num_courts)]"
    using assms(3) by (simp add: all_courts_def nat_add_distrib)
  have row: "(\<Sum>c<nat num_courts. ?V p c) + ?V p (nat num_courts) = 1" if "p < np" for p
    using holds_team_constraint3[OF assms(2) that assms(4)]
    unfolding ac total_upt_sum by simp
  have col: "(\<Sum>p<np. ?V p c) = 4" if "c < nat num_courts" for c
    using holds_team_constraint1[OF assms(1,4) that] unfolding total_upt_sum .
  have "int np = (\<Sum>p<np. (\<Sum>c<nat num_courts. ?V p c) + ?V p (nat num_courts))"
    using row by simp
  also have "\<dots> = (\<Sum>p<np. \<Sum>c<nat num_courts. ?V p c) + (\<Sum>p<np. ?V p (nat num_courts))"
    by (rule sum.distrib)
  also have "(\<Sum>p<np. \<Sum>c<nat num_courts. ?V p c) = (\<Sum>c<nat num_courts. \<Sum>p<np. ?V p c)"
    by (rule sum.swap)
  also have "\<dots> = (\<Sum>c<nat num_courts. 4)" using col by simp
  also have "\<dots> = num_courts * 4" using assms(3) by simp
  finally show ?thesis by (simp add: sum_Value_card)
qed

subsection \<open>Partner uniqueness\<close>

lemma team5_checked:
  "case teamAlloc_main 5 5 1 [1, 2, 3, 4, 5] of Inl e \<Rightarrow> False | Inr m \<Rightarrow> solution team5 m"
  by code_simp

lemma team5_solution:
  "\<not> isl (teamAlloc_main 5 5 1 [1, 2, 3, 4, 5])"
  "solution team5 (projr (teamAlloc_main 5 5 1 [1, 2, 3, 4, 5]))"
  "teamAlloc_main 5 5 1 [1, 2, 3, 4, 5] = Inr (projr (teamAlloc_main 5 5 1 [1, 2, 3, 4, 5]))"
  using team5_checked by (cases "teamAlloc_main 5 5 1 [1, 2, 3, 4, 5]"; simp)+

lemma rota5_file:
  "write_bench (\<lambda>p r. bench_assignment rota5 5 (Bench p r)) (nat 5) (nat 5) = [1, 2, 3, 4, 5]"
  by code_simp

lemma team5_opposed: "opposed team5 4 2 0 (nat 1) \<and> opposed team5 4 2 1 (nat 1)"
  by code_simp

text \<open>
  C2. In every solution of the grouping model two distinct players occupy the same duo slot
  in at most one (round, slot) combination. Opposition is not constrained: in the
  five-player schedule players 5 and 3 are opponents in rounds 1 and 2.
\<close>

theorem partner_uniqueness:
  "(teamAlloc_main num_players num_rounds num_courts bench_list = Inr m \<and> solution a m
      \<and> p1 < nat num_players \<and> p2 < nat num_players \<and> p1 \<noteq> p2
    \<longrightarrow> card {(r, s). r < nat num_rounds \<and> s < 2 * nat num_courts
                        \<and> a (Duo p1 r s) \<and> a (Duo p2 r s)} \<le> 1)
   \<and> (\<exists>np nr nc bl m' a' q1 q2 r1 r2.
         teamAlloc_main np nr nc bl = Inr m' \<and> solution a' m'
         \<and> r1 < r2 \<and> r2 < nat nr \<and> opposed a' q1 q2 r1 (nat nc) \<and> opposed a' q1 q2 r2 (nat nc))"
proof (intro conjI impI)
  assume h: "teamAlloc_main num_players num_rounds num_courts bench_list = Inr m \<and> solution a m
      \<and> p1 < nat num_players \<and> p2 < nat num_players \<and> p1 \<noteq> p2"
  then have main: "teamAlloc_main num_players num_rounds num_courts bench_list = Inr m"
    and sol: "solution a m" and p1: "p1 < nat num_players" and p2: "p2 < nat num_players"
    and ne: "p1 \<noteq> p2" by simp_all
  note c7 = team_solution_parts(6)[OF main sol]
  let ?S = "{(r, s). r < nat num_rounds \<and> s < 2 * nat num_courts
                        \<and> a (Duo p1 r s) \<and> a (Duo p2 r s)}"
  have "?S \<subseteq> {..<nat num_rounds} \<times> {..<2 * nat num_courts}" by auto
  then have fin: "finite ?S" by (rule finite_subset) simp
  have same: "x = y" if x: "x \<in> ?S" and y: "y \<in> ?S" for x y
  proof -
    obtain r s where xe: "x = (r, s)" by (cases x)
    obtain r' s' where ye: "y = (r', s')" by (cases y)
    from x xe have X: "r < nat num_rounds" "s < 2 * nat num_courts" "a (Duo p1 r s)" "a (Duo p2 r s)"
      by simp_all
    from y ye have Y: "r' < nat num_rounds" "s' < 2 * nat num_courts" "a (Duo p1 r' s')" "a (Duo p2 r' s')"
      by simp_all
    from ne have "p1 < p2 \<or> p2 < p1" by arith
    then have "r = r' \<and> s = s'"
    proof
      assume "p1 < p2"
      from holds_team_constraint7[OF c7 this p2 X Y] show ?thesis .
    next
      assume "p2 < p1"
      from holds_team_constraint7[OF c7 this p1 X(1,2,4,3) Y(1,2,4,3)] show ?thesis .
    qed
    with xe ye show ?thesis by simp
  qed
  from fin same have "card ?S \<le> Suc 0" by (simp only: card_le_Suc0_iff_eq) blast
  then show "card ?S \<le> 1" by simp
next
  have "(0::nat) < 1 \<and> (1::nat) < nat 5" by simp
  with team5_solution(2,3) team5_opposed
  show "\<exists>np nr nc bl m' a' q1 q2 r1 r2.
         teamAlloc_main np nr nc bl = Inr m' \<and> solution a' m'
         \<and> r1 < r2 \<and> r2 < nat nr \<and> opposed a' q1 q2 r1 (nat nc) \<and> opposed a' q1 q2 r2 (nat nc)"
    by blast
qed

text \<open>
  In the five-player schedule players 1 and 2 are partners once (round 4, second duo).
\<close>

theorem partner_uniqueness_witness:
  "\<not> isl (teamAlloc_main 5 5 1 [1, 2, 3, 4, 5])
   \<and> solution team5 (projr (teamAlloc_main 5 5 1 [1, 2, 3, 4, 5]))
   \<and> team5 (Duo 0 3 1) \<and> team5 (Duo 1 3 1)
   \<and> card {(r, s). r < nat 5 \<and> s < 2 * nat 1 \<and> team5 (Duo 0 r s) \<and> team5 (Duo 1 r s)} \<le> 1"
proof -
  have "(0::nat) < nat 5 \<and> (1::nat) < nat 5 \<and> (0::nat) \<noteq> 1" by simp
  with partner_uniqueness[of 5 5 1 "[1, 2, 3, 4, 5]" "projr (teamAlloc_main 5 5 1 [1, 2, 3, 4, 5])"
      team5 0 1] team5_solution(2,3)
  have "card {(r, s). r < nat 5 \<and> s < 2 * nat 1 \<and> team5 (Duo 0 r s) \<and> team5 (Duo 1 r s)} \<le> 1"
    by blast
  moreover have "team5 (Duo 0 3 1) \<and> team5 (Duo 1 3 1)" by (simp add: team5_def duo5_def)
  ultimately show ?thesis using team5_solution(1,2) by simp
qed

subsection \<open>The bench slot\<close>

lemma team_constraint4_Inr:
  assumes "teamAlloc_main num_players num_rounds num_courts bl = Inr m" and "solution a m"
    and "0 < num_bench num_players num_courts"
  shows "\<exists>s. read_bench (nat num_players) (nat num_rounds) num_courts
            (num_bench num_players num_courts) bl = Inr s \<and> list_all (holds a) (pinned s)"
proof -
  from teamAlloc_main_Inr[OF assms(1)] obtain c4 where
    c4: "team_constraint4 (nat num_players) (nat num_rounds) num_courts
        (num_bench num_players num_courts) bl = Inr c4" and
    cs: "constraints m =
       team_constraint1 (nat num_players) (nat num_rounds) num_courts
       @ team_constraint2 (nat num_players) (nat num_rounds) num_courts (num_bench num_players num_courts)
       @ team_constraint3 (nat num_players) (nat num_rounds) num_courts @ c4
       @ team_constraint5 (nat num_players) (nat num_rounds) num_courts
       @ team_duo_constraints (nat num_players) (nat num_rounds) num_courts
       @ team_constraint6 (nat num_players) (nat num_rounds) num_courts
       @ team_constraint7 (nat num_players) (nat num_rounds) num_courts" by blast
  from assms(2) cs have l: "list_all (holds a) c4" by (simp add: solution_def)
  from c4 assms(3) obtain s where
    s: "read_bench (nat num_players) (nat num_rounds) num_courts
            (num_bench num_players num_courts) bl = Inr s" and
    e: "c4 = pinned s @ team_benchVar_constraints (nat num_players) (nat num_rounds) num_courts"
    by (auto simp: team_constraint4_def split: sum.splits)
  from l e have "list_all (holds a) (pinned s)" by simp
  with s show ?thesis by blast
qed

text \<open>
  C7. With \<open>num_bench > 0\<close> and the bench file that BenchPlanner wrote for a solution \<open>b\<close>
  of its model, every solution of the grouping model has on the bench (the last "court")
  exactly \<open>num_bench\<close> players in every round, and they are the players \<open>b\<close> benches in
  that round.
\<close>

theorem bench_slot_pinned:
  assumes "benchAlloc_main num_players num_rounds num_courts = Inr mb" and "solution b mb"
    and "teamAlloc_main num_players num_rounds num_courts
           (write_bench (\<lambda>p r. b (Bench p r)) (nat num_players) (nat num_rounds)) = Inr mt"
    and "solution a mt"
    and "0 < num_bench num_players num_courts" and "r < nat num_rounds"
  shows "{p. p < nat num_players \<and> a (Games p r (nat num_courts))}
           = {p. p < nat num_players \<and> b (Bench p r)}
       \<and> int (card {p. p < nat num_players \<and> a (Games p r (nat num_courts))})
           = num_bench num_players num_courts"
proof -
  let ?np = "nat num_players" and ?nr = "nat num_rounds"
  let ?nb = "num_bench num_players num_courts"
  let ?val = "\<lambda>p r. b (Bench p r)"
  let ?bl = "write_bench ?val ?np ?nr"
  let ?A = "{p. p < ?np \<and> b (Bench p r)}"
  let ?B = "{p. p < ?np \<and> a (Games p r (nat num_courts))}"
  from assms(1) obtain minb maxb d where
    mb: "mb = bench_model ?np ?nr ?nb minb maxb d" by (rule benchAlloc_main_Inr)
  with assms(2) have "list_all (holds b) (bench_constraint1 ?np ?nr ?nb)"
    by (simp add: solution_bench_model)
  then have "\<forall>t<?nr. int (card {p. p < ?np \<and> b (Bench p t)}) = ?nb"
    by (simp add: holds_constraint1 total_upt_card)
  then have cards: "\<forall>t<?nr. card {p. p < ?np \<and> ?val p t} = nat ?nb" by auto
  from team_constraint4_Inr[OF assms(3,4,5)] obtain s where
    "read_bench ?np ?nr num_courts ?nb ?bl = Inr s" and pins: "list_all (holds a) (pinned s)"
    by blast
  then have s: "for_each [0..<?nr] (read_round ?np num_courts ?nb ?bl)
      \<lparr>count = 0, bench_assignements = replicate ?np (replicate ?nr 0), bench = [],
        bench_matrix = [], pinned = []\<rparr> = Inr s" by (simp add: read_bench_def)
  from assms(5,6) have "?nr * nat ?nb \<noteq> 0" by simp
  with read_rounds_Inr(2)[OF s le_refl] have nc: "0 \<le> num_courts" by blast
  from pins read_rounds_Inr(4)[OF s le_refl]
  have P: "\<forall>t\<in>set [0..<?nr]. \<forall>i\<in>set [0..<nat ?nb].
      holds a (Linear [Games (nat (?bl ! (t * nat ?nb + i) - 1)) t (nat num_courts)] EQ [] 1 None)"
    by (simp only: list_all_concat_map list_all_map_ball)
  have pinned_player: "a (Games (nat (?bl ! (r * nat ?nb + i) - 1)) r (nat num_courts))"
    if "i < nat ?nb" for i
  proof -
    have "r \<in> set [0..<?nr]" "i \<in> set [0..<nat ?nb]" using assms(6) that by simp_all
    from bspec[OF bspec[OF P this(1)] this(2)] show ?thesis
      by (simp add: total_def Value_def split: if_splits)
  qed
  have sub: "?A \<subseteq> ?B"
  proof
    fix p assume "p \<in> ?A"
    then have p: "p < ?np \<and> ?val p r" by simp
    with write_bench_players[OF cards assms(6), of p]
    obtain i where "i < nat ?nb" "nat (?bl ! (r * nat ?nb + i) - 1) = p" by blast
    with pinned_player[of i] p show "p \<in> ?B" by simp
  qed
  from nc assms(5) have "0 < num_players" by (simp add: num_bench_def num_players_per_court_def)
  then have "int ?np - num_courts * 4 = ?nb" by (simp add: num_bench_def num_players_per_court_def)
  with bench_slot_count[OF team_solution_parts(1,2)[OF assms(3,4)] nc assms(6)]
  have cB: "int (card ?B) = ?nb" by simp
  with cards assms(6) have "card ?A = card ?B" by simp
  moreover have "finite ?B" by simp
  ultimately have "?A = ?B" using sub by (intro card_subset_eq)
  with cB show ?thesis by simp
qed

text \<open>
  In the five-player schedule, built on the file of the five-player rota, round 1 has
  player 1 on the bench and nobody else.
\<close>

theorem bench_slot_pinned_witness:
  "benchAlloc_main 5 5 1 = Inr (bench_model 5 5 1 1 1 3)
   \<and> solution (bench_assignment rota5 5) (bench_model 5 5 1 1 1 3)
   \<and> \<not> isl (teamAlloc_main 5 5 1
            (write_bench (\<lambda>p r. bench_assignment rota5 5 (Bench p r)) (nat 5) (nat 5)))
   \<and> solution team5 (projr (teamAlloc_main 5 5 1
            (write_bench (\<lambda>p r. bench_assignment rota5 5 (Bench p r)) (nat 5) (nat 5))))
   \<and> 0 < num_bench 5 1
   \<and> {p. p < nat 5 \<and> team5 (Games p 0 (nat 1))}
        = {p. p < nat 5 \<and> bench_assignment rota5 5 (Bench p 0)}
   \<and> int (card {p. p < nat 5 \<and> team5 (Games p 0 (nat 1))}) = num_bench 5 1"
proof -
  have nb: "0 < num_bench 5 1" by (simp add: num_bench_def num_players_per_court_def)
  have r: "(0::nat) < nat 5" by simp
  note t = team5_solution[folded rota5_file]
  from bench_slot_pinned[OF benchAlloc_main_5_5_1 rota5_solution t(3) t(2) nb r]
    benchAlloc_main_5_5_1 rota5_solution t(1,2) nb
  show ?thesis by blast
qed

subsection \<open>Every pair shares a court\<close>

lemma too_few_rounds:
  assumes c1: "list_all (holds a) (team_constraint1 np nr num_courts)"
    and c3: "list_all (holds a) (team_constraint3 np nr num_courts)"
    and c5: "list_all (holds a) (team_constraint5 np nr num_courts)"
    and few: "3 * nr + 1 < np"
  shows False
proof -
  define S where "S r = {q. q < np \<and> q \<noteq> 0 \<and> (\<exists>c<nat num_courts. a (Games 0 r c) \<and> a (Games q r c))}"
    for r
  from few have np: "0 < np" by simp
  have cardS: "card (S r) \<le> 3" if r: "r < nr" for r
  proof (cases "\<exists>c<nat num_courts. a (Games 0 r c)")
    case False
    then have "S r = {}" by (auto simp: S_def)
    then show ?thesis by simp
  next
    case True
    then obtain c where c: "c < nat num_courts" and a0: "a (Games 0 r c)" by blast
    let ?C = "{q. q < np \<and> a (Games q r c)}"
    have "int (card ?C) = 4"
      using holds_team_constraint1[OF c1 r c] by (simp add: total_upt_card)
    then have cC: "card ?C = 4" by simp
    have "S r \<subseteq> ?C - {0}"
    proof
      fix q assume "q \<in> S r"
      then obtain c' where q: "q < np" "q \<noteq> 0" and c': "c' < nat num_courts"
        and b0: "a (Games 0 r c')" and bq: "a (Games q r c')" by (auto simp: S_def)
      from c c' have "c < nat (num_courts + 1)" "c' < nat (num_courts + 1)" by simp_all
      from one_court_per_round[OF c3 np r this(1) a0 this(2) b0] have "c = c'" .
      with q bq show "q \<in> ?C - {0}" by simp
    qed
    then have "card (S r) \<le> card (?C - {0})" by (intro card_mono) simp_all
    also from np a0 have "0 \<in> ?C" by simp
    then have "card (?C - {0}) = 3" using cC by simp
    finally show ?thesis .
  qed
  have "{1..<np} \<subseteq> (\<Union>r\<in>{..<nr}. S r)"
  proof
    fix q assume "q \<in> {1..<np}"
    then have q: "0 < q" "q < np" by simp_all
    from holds_team_constraint5[OF c5 q] obtain r c where
      "r < nr" "c < nat num_courts" "a (Games 0 r c)" "a (Games q r c)" by blast
    with q show "q \<in> (\<Union>r\<in>{..<nr}. S r)" by (auto simp: S_def)
  qed
  then have "card {1..<np} \<le> card (\<Union>r\<in>{..<nr}. S r)"
    by (intro card_mono) (auto simp: S_def)
  also have "\<dots> \<le> (\<Sum>r\<in>{..<nr}. card (S r))" by (intro card_UN_le) simp
  also have "\<dots> \<le> (\<Sum>r\<in>{..<nr}. 3)" by (intro sum_mono) (simp add: cardS)
  finally have "np - 1 \<le> 3 * nr" by simp
  with few show False by simp
qed

lemma teamAlloc_main_8_1_2:
  "\<not> isl (teamAlloc_main 8 1 2 [])"
  "teamAlloc_main 8 1 2 [] = Inr (projr (teamAlloc_main 8 1 2 []))"
  by (simp_all add: teamAlloc_main_def Let_def num_bench_def num_players_per_court_def
      team_constraint4_def)

lemma teamAlloc_run_no_solutions:
  assumes "teamAlloc_main num_players num_rounds num_courts bench_list = Inr m"
  shows "teamAlloc_run num_players num_rounds num_courts bench_list []
           = Inr \<lparr>emitted = [], solutions_found = 0\<rparr>"
  using assms by (simp add: teamAlloc_run_def team_printer_init_def)

text \<open>
  C8 (amended). In every solution of the grouping model every two distinct players are on
  the same played court in at least one round. The constraint is never dropped: when the
  rounds are too few for it (a player meets at most three others per round), the model
  has no solution at all. The stage then raises nothing and reports no infeasibility:
  the engine has no solution to hand over, nothing is emitted, and the run ends with
  "solutions found: 0".
\<close>

theorem every_pair_shares_a_court:
  "(teamAlloc_main num_players num_rounds num_courts bench_list = Inr m \<and> solution a m
      \<and> p1 < nat num_players \<and> p2 < nat num_players \<and> p1 \<noteq> p2
    \<longrightarrow> (\<exists>r<nat num_rounds. \<exists>c<nat num_courts. a (Games p1 r c) \<and> a (Games p2 r c)))
   \<and> (teamAlloc_main num_players num_rounds num_courts bench_list = Inr m
      \<and> 3 * nat num_rounds + 1 < nat num_players
    \<longrightarrow> \<not> solution a m)
   \<and> (teamAlloc_main num_players num_rounds num_courts bench_list = Inr m
      \<and> 3 * nat num_rounds + 1 < nat num_players \<and> engine_delivers m sols
    \<longrightarrow> teamAlloc_run num_players num_rounds num_courts bench_list sols
          = Inr \<lparr>emitted = [], solutions_found = 0\<rparr>)"
proof (intro conjI impI)
  assume h: "teamAlloc_main num_players num_rounds num_courts bench_list = Inr m \<and> solution a m
      \<and> p1 < nat num_players \<and> p2 < nat num_players \<and> p1 \<noteq> p2"
  then have main: "teamAlloc_main num_players num_rounds num_courts bench_list = Inr m"
    and sol: "solution a m" and p1: "p1 < nat num_players" and p2: "p2 < nat num_players"
    and ne: "p1 \<noteq> p2" by simp_all
  note c5 = team_solution_parts(3)[OF main sol]
  from ne have "p1 < p2 \<or> p2 < p1" by arith
  then show "\<exists>r<nat num_rounds. \<exists>c<nat num_courts. a (Games p1 r c) \<and> a (Games p2 r c)"
  proof
    assume "p1 < p2"
    from holds_team_constraint5[OF c5 this p2] show ?thesis .
  next
    assume "p2 < p1"
    from holds_team_constraint5[OF c5 this p1] show ?thesis by blast
  qed
next
  assume h: "teamAlloc_main num_players num_rounds num_courts bench_list = Inr m
      \<and> 3 * nat num_rounds + 1 < nat num_players"
  show "\<not> solution a m"
  proof
    assume sol: "solution a m"
    from h have main: "teamAlloc_main num_players num_rounds num_courts bench_list = Inr m"
      and few: "3 * nat num_rounds + 1 < nat num_players" by simp_all
    from too_few_rounds[OF team_solution_parts(1,2,3)[OF main sol] few] show False .
  qed
next
  assume h: "teamAlloc_main num_players num_rounds num_courts bench_list = Inr m
      \<and> 3 * nat num_rounds + 1 < nat num_players \<and> engine_delivers m sols"
  then have main: "teamAlloc_main num_players num_rounds num_courts bench_list = Inr m"
    and few: "3 * nat num_rounds + 1 < nat num_players"
    and del: "engine_delivers m sols" by simp_all
  have "sols = []"
  proof (cases sols)
    case Nil
    then show ?thesis .
  next
    case (Cons v vs)
    with del have sol: "solution v m" by (simp add: engine_delivers_def)
    from too_few_rounds[OF team_solution_parts(1,2,3)[OF main sol] few] show ?thesis ..
  qed
  with teamAlloc_run_no_solutions[OF main]
  show "teamAlloc_run num_players num_rounds num_courts bench_list sols
          = Inr \<lparr>emitted = [], solutions_found = 0\<rparr>" by simp
qed

text \<open>
  Players 1 and 2 of the five-player schedule share a court; eight players on two courts
  cannot all meet in a single round, and that run ends with nothing emitted.
\<close>

theorem every_pair_shares_a_court_witness:
  "\<not> isl (teamAlloc_main 5 5 1 [1, 2, 3, 4, 5])
   \<and> solution team5 (projr (teamAlloc_main 5 5 1 [1, 2, 3, 4, 5]))
   \<and> (\<exists>r<nat 5. \<exists>c<nat 1. team5 (Games 0 r c) \<and> team5 (Games 1 r c))
   \<and> \<not> isl (teamAlloc_main 8 1 2 [])
   \<and> 3 * nat 1 + 1 < nat 8
   \<and> \<not> solution (\<lambda>v. False) (projr (teamAlloc_main 8 1 2 []))
   \<and> engine_delivers (projr (teamAlloc_main 8 1 2 [])) []
   \<and> teamAlloc_run 8 1 2 [] [] = Inr \<lparr>emitted = [], solutions_found = 0\<rparr>"
proof -
  have "(0::nat) < nat 5 \<and> (1::nat) < nat 5 \<and> (0::nat) \<noteq> 1" by simp
  with every_pair_shares_a_court[of 5 5 1 "[1, 2, 3, 4, 5]"
      "projr (teamAlloc_main 5 5 1 [1, 2, 3, 4, 5])" team5 0 1] team5_solution(2,3)
  have a: "\<exists>r<nat 5. \<exists>c<nat 1. team5 (Games 0 r c) \<and> team5 (Games 1 r c)" by blast
  have few: "3 * nat 1 + 1 < nat 8" by simp
  have del: "engine_delivers (projr (teamAlloc_main 8 1 2 [])) []"
    by (simp add: engine_delivers_def)
  note t = every_pair_shares_a_court[of 8 1 2 "[]" "projr (teamAlloc_main 8 1 2 [])"
      "\<lambda>v. False" 0 0 "[]"]
  from t few teamAlloc_main_8_1_2(2)
  have b: "\<not> solution (\<lambda>v. False) (projr (teamAlloc_main 8 1 2 []))" by blast
  from t few del teamAlloc_main_8_1_2(2)
  have c: "teamAlloc_run 8 1 2 [] [] = Inr \<lparr>emitted = [], solutions_found = 0\<rparr>" by blast
  from a b c few del team5_solution(1,2) teamAlloc_main_8_1_2(1) show ?thesis by blast
qed

text \<open>
  C8 as stated fails: with eight players, two courts and one round the model is
  infeasible, and the stage surfaces no error: the run ends normally, reporting 0
  solutions found.
\<close>

theorem every_pair_shares_a_court_counterexample:
  "3 * nat 1 + 1 < nat 8
   \<and> teamAlloc_run 8 1 2 [] [] = Inr \<lparr>emitted = [], solutions_found = 0\<rparr>"
  using teamAlloc_run_no_solutions[OF teamAlloc_main_8_1_2(2)] by simp

subsection \<open>The incumbent of GroupPairer\<close>

lemma team_print_schedule_Inr:
  assumes "team_print_schedule np nr nc v s = Inr (s', printit)"
    and "maxCount np nr nc v = Inr maxc" and "minCount np nr nc v = Inr minc"
  shows "best s' \<le> best s"
    and "maxc - minc \<le> best s \<longrightarrow>
           best s' = maxc - minc \<and> printit = (sameplayers np nr nc v \<le> better s)"
    and "best s < maxc - minc \<longrightarrow> s' = s \<and> \<not> printit"
  using assms by (auto simp: team_print_schedule_def Let_def split: if_splits)

lemma team_print_schedule_best:
  assumes "team_print_schedule np nr nc v s = Inr (s', printit)"
  shows "best s' \<le> best s"
proof -
  from assms obtain maxc minc where
    "maxCount np nr nc v = Inr maxc" "minCount np nr nc v = Inr minc"
    by (auto simp: team_print_schedule_def split: sum.splits)
  from team_print_schedule_Inr(1)[OF assms this] show ?thesis .
qed

lemma team_on_solution_callback_best:
  assumes "team_on_solution_callback np nr nc limit v s = Inr (s1, printit, stop)"
  shows "best s1 \<le> best s"
proof -
  from assms have "team_print_schedule np nr nc v (s\<lparr>solution_count := solution_count s + 1\<rparr>)
      = Inr (s1, printit)"
    by (auto simp: team_on_solution_callback_def Let_def split: sum.splits)
  from team_print_schedule_best[OF this] show ?thesis by simp
qed

lemma team_search_best:
  "team_search np nr nc limit vs s = Inr (s', out) \<Longrightarrow> best s' \<le> best s"
proof (induction vs arbitrary: s s' out)
  case Nil
  then show ?case by simp
next
  case (Cons v vs)
  from Cons.prems obtain s1 printit stop where
    cb: "team_on_solution_callback np nr nc limit v s = Inr (s1, printit, stop)"
    by (auto split: sum.splits)
  note b1 = team_on_solution_callback_best[OF cb]
  show ?case
  proof (cases stop)
    case True
    with Cons.prems cb have "s' = s1" by simp
    with b1 show ?thesis by simp
  next
    case False
    with Cons.prems cb obtain out' where "team_search np nr nc limit vs s1 = Inr (s', out')"
      by (auto split: sum.splits)
    from Cons.IH[OF this] b1 show ?thesis by simp
  qed
qed

lemma team4_checked:
  "case teamAlloc_main 4 2 1 [] of Inl e \<Rightarrow> False | Inr m \<Rightarrow> solution team4 m"
  by code_simp

lemma team4_solution:
  "solution team4 (projr (teamAlloc_main 4 2 1 []))"
  "teamAlloc_main 4 2 1 [] = Inr (projr (teamAlloc_main 4 2 1 []))"
  using team4_checked by (cases "teamAlloc_main 4 2 1 []"; simp)+

lemma team4_callback:
  "team_print_schedule 4 2 1 team4 (team_printer_init 4 2)
     = Inr (\<lparr>solution_count = 0, best = 0, better = 10\<rparr>, False)"
  "maxCount 4 2 1 team4 = Inr 2" "minCount 4 2 1 team4 = Inr 2"
  "sameplayers 4 2 1 team4 = 12"
  "team_search 4 2 1 50000 [team4, team4] (team_printer_init 4 2)
     = Inr (\<lparr>solution_count = 2, best = 0, better = 10\<rparr>, [False, False])"
  by code_simp+

text \<open>
  C10. One run of GroupPairer's \<open>print_schedule\<close> never raises the stored best spread.
  When the spread of the solution is at most the stored one it is stored at once, and
  the solution is emitted exactly when \<open>sameplayers\<close> is at most the stored \<open>better\<close>:
  whether the spread improved strictly plays no part. Otherwise nothing changes and
  nothing is emitted. So the stored spread is non-increasing over a whole search, and it
  can decrease for a solution that is not emitted.
\<close>

theorem team_incumbent_update:
  "(team_print_schedule np nr nc v s = Inr (s', printit)
      \<and> maxCount np nr nc v = Inr maxc \<and> minCount np nr nc v = Inr minc
    \<longrightarrow> best s' \<le> best s
        \<and> (maxc - minc \<le> best s \<longrightarrow>
              best s' = maxc - minc \<and> printit = (sameplayers np nr nc v \<le> better s))
        \<and> (best s < maxc - minc \<longrightarrow> s' = s \<and> \<not> printit))
   \<and> (team_search np nr nc limit vs s = Inr (t, out) \<longrightarrow> best t \<le> best s)
   \<and> (\<exists>num_players num_rounds num_courts bench_list m w u.
         teamAlloc_main num_players num_rounds num_courts bench_list = Inr m \<and> solution w m
         \<and> team_print_schedule (nat num_players) (nat num_rounds) (nat num_courts) w
              (team_printer_init num_players num_rounds) = Inr (u, False)
         \<and> best u < best (team_printer_init num_players num_rounds))"
proof (intro conjI)
  show "team_print_schedule np nr nc v s = Inr (s', printit)
      \<and> maxCount np nr nc v = Inr maxc \<and> minCount np nr nc v = Inr minc
    \<longrightarrow> best s' \<le> best s
        \<and> (maxc - minc \<le> best s \<longrightarrow>
              best s' = maxc - minc \<and> printit = (sameplayers np nr nc v \<le> better s))
        \<and> (best s < maxc - minc \<longrightarrow> s' = s \<and> \<not> printit)"
    using team_print_schedule_Inr[of np nr nc v s s' printit maxc minc] by blast
  show "team_search np nr nc limit vs s = Inr (t, out) \<longrightarrow> best t \<le> best s"
    using team_search_best by blast
  have "team_print_schedule (nat 4) (nat 2) (nat 1) team4 (team_printer_init 4 2)
     = Inr (\<lparr>solution_count = 0, best = 0, better = 10\<rparr>, False)"
    using team4_callback(1) by simp
  moreover have "best \<lparr>solution_count = 0, best = 0, better = 10\<rparr> < best (team_printer_init 4 2)"
    by (simp add: team_printer_init_def)
  ultimately show "\<exists>num_players num_rounds num_courts bench_list m w u.
         teamAlloc_main num_players num_rounds num_courts bench_list = Inr m \<and> solution w m
         \<and> team_print_schedule (nat num_players) (nat num_rounds) (nat num_courts) w
              (team_printer_init num_players num_rounds) = Inr (u, False)
         \<and> best u < best (team_printer_init num_players num_rounds)"
    using team4_solution by blast
qed

text \<open>
  The four-player schedule, first solution of a search: its spread 0 replaces the stored
  2, and it is not emitted, since \<open>sameplayers\<close> is 12 and the stored \<open>better\<close> is 10.
\<close>

theorem team_incumbent_update_witness:
  "team_print_schedule 4 2 1 team4 (team_printer_init 4 2)
     = Inr (\<lparr>solution_count = 0, best = 0, better = 10\<rparr>, False)
   \<and> maxCount 4 2 1 team4 = Inr 2 \<and> minCount 4 2 1 team4 = Inr 2
   \<and> best \<lparr>solution_count = 0, best = 0, better = 10\<rparr> \<le> best (team_printer_init 4 2)
   \<and> best \<lparr>solution_count = 0, best = 0, better = 10\<rparr> = 2 - 2
   \<and> \<not> sameplayers 4 2 1 team4 \<le> better (team_printer_init 4 2)
   \<and> team_search 4 2 1 50000 [team4, team4] (team_printer_init 4 2)
       = Inr (\<lparr>solution_count = 2, best = 0, better = 10\<rparr>, [False, False])
   \<and> best \<lparr>solution_count = 2, best = 0, better = 10\<rparr> \<le> best (team_printer_init 4 2)"
proof -
  have le: "(2::int) - 2 \<le> best (team_printer_init 4 2)" by (simp add: team_printer_init_def)
  from team_incumbent_update[of 4 2 1 team4 "team_printer_init 4 2"
      "\<lparr>solution_count = 0, best = 0, better = 10\<rparr>" False 2 2 50000 "[team4, team4]"
      "\<lparr>solution_count = 2, best = 0, better = 10\<rparr>" "[False, False]"]
    team4_callback(1,2,3,5) le
  show ?thesis by blast
qed

section \<open>Properties of CourtAssigner\<close>

text \<open>When the callback emits, in general.\<close>

lemma court_print_schedule_printit:
  assumes "court_print_schedule np nr nc group_assignements games s = Inr (s', printit)"
    and "playersCourtDiffMax np nr nc group_assignements games = Inr spreads"
    and "py_max spreads = Inr mx"
  shows "printit \<longleftrightarrow>
           mx < bestCourtDiffMax s
           \<or> (mx = bestCourtDiffMax s
               \<and> int (length (filter (\<lambda>d. d = mx) spreads)) \<le> numPlayersWith_best s)"
  using assms by (auto simp: court_print_schedule_def Let_def split: if_splits)

text \<open>
  C4 (the code departs from the claim). The claim: a court assignment that merely ties the
  stored maximum spread and the stored number of players at it is never emitted. The
  callback compares the number of players with \<open>>=\<close>: with eight players, one round and
  two courts both assignments have spread 1 for all 8 players, which ties the initial
  state, and each is emitted, leaving the state as it was.
\<close>

theorem court_ties_are_emitted:
  "court_print_schedule 8 1 2 groups8 courts_straight (court_printer_init 8 1)
     = Inr (court_printer_init 8 1, True)
   \<and> court_print_schedule 8 1 2 groups8 courts_swapped (court_printer_init 8 1)
     = Inr (court_printer_init 8 1, True)"
  by code_simp

end
